theory Spec2Isabelle
  imports Main "HOL-Library.Sublist"
begin

section \<open>Python strings\<close>

text \<open>
  A Python \<open>str\<close> is modelled as a \<open>string\<close>; a character is a code point below 256.
  The functions of this section are the methods of \<open>str\<close> that \<open>common_utils.py\<close> and
  \<open>plnx_utils.py\<close> call.
\<close>

abbreviation LF :: char where "LF \<equiv> CHR 0x0A"
abbreviation CR :: char where "CR \<equiv> CHR 0x0D"
abbreviation DQUOTE :: char where "DQUOTE \<equiv> CHR 0x22"

text \<open>\<open>str.isspace\<close> on one character (the white space that \<open>str.strip()\<close> removes).\<close>

definition py_isspace :: "char \<Rightarrow> bool" where
  "py_isspace c = (c \<in> set [CHR 0x09, CHR 0x0A, CHR 0x0B, CHR 0x0C, CHR 0x0D,
                             CHR 0x1C, CHR 0x1D, CHR 0x1E, CHR 0x1F, CHR 0x20,
                             CHR 0x85, CHR 0xA0])"

definition py_strip :: "string \<Rightarrow> string" where
  "py_strip s = rev (dropWhile py_isspace (rev (dropWhile py_isspace s)))"

definition startswith :: "string \<Rightarrow> string \<Rightarrow> bool" where
  "startswith s p = prefix p s"

definition endswith :: "string \<Rightarrow> string \<Rightarrow> bool" where
  "endswith s p = suffix p s"

text \<open>
  \<open>s.replace(old, new)\<close>: the occurrences of \<open>old\<close> are replaced from left to right and
  do not overlap; an empty \<open>old\<close> matches before every character and at the end.
\<close>

function py_replace :: "string \<Rightarrow> string \<Rightarrow> string \<Rightarrow> string" where
  "py_replace old new s =
     (if old = [] then new @ concat (map (\<lambda>c. c # new) s)
      else if s = [] then []
      else if prefix old s then new @ py_replace old new (drop (length old) s)
      else hd s # py_replace old new (tl s))"
  by pat_completeness auto
termination
  by (relation "measure (\<lambda>(old, new, s). length s)") auto

declare py_replace.simps [simp del]

text \<open>\<open>s.split(sep)\<close> for a separator of one character: the fields between the separators.\<close>

fun py_split :: "char \<Rightarrow> string \<Rightarrow> string list" where
  "py_split sep [] = [[]]"
| "py_split sep (c # s) =
     (if c = sep then [] # py_split sep s
      else (case py_split sep s of f # fs \<Rightarrow> (c # f) # fs | [] \<Rightarrow> [[c]]))"

text \<open>\<open>str.lower()\<close>: the upper-case letters below code point 256 are A-Z and
  0xC0-0xDE without 0xD7; each has its lower-case letter 32 places further.\<close>

definition py_lower_char :: "char \<Rightarrow> char" where
  "py_lower_char c =
     (let n = of_char c :: nat in
      if (65 \<le> n \<and> n \<le> 90) \<or> (192 \<le> n \<and> n \<le> 222 \<and> n \<noteq> 215)
      then char_of (n + 32) else c)"

definition py_lower :: "string \<Rightarrow> string" where
  "py_lower s = map py_lower_char s"

section \<open>Files\<close>

text \<open>
  The file system maps a path to the text of the regular file there. The source opens
  files in text mode: reading translates \<open>\r\n\<close> and \<open>\r\<close> to \<open>\n\<close> (universal newlines),
  writing stores \<open>\n\<close> as it is (the tool runs on Linux). Directories, permissions and
  encodings are outside the model: a path names a readable and writable text file or
  nothing.
\<close>

type_synonym path = string
type_synonym fs = "path \<rightharpoonup> string"

fun universal_newlines :: "string \<Rightarrow> string" where
  "universal_newlines [] = []"
| "universal_newlines [c] = (if c = CR then [LF] else [c])"
| "universal_newlines (c # d # s) =
     (if c = CR \<and> d = LF then LF # universal_newlines s
      else if c = CR then LF # universal_newlines (d # s)
      else c # universal_newlines (d # s))"

text \<open>\<open>file.readlines()\<close> on a text: every line keeps its \<open>\n\<close>; a last line without
  \<open>\n\<close> is a line too.\<close>

fun split_lines :: "string \<Rightarrow> string list" where
  "split_lines [] = []"
| "split_lines (c # s) =
     (if c = LF then [LF] # split_lines s
      else (case split_lines s of [] \<Rightarrow> [[c]] | l # ls \<Rightarrow> (c # l) # ls))"

text \<open>The idiom \<open>lines = []; if os.path.exists(filename): lines = open(filename,
  'r').readlines()\<close> of \<open>update_config_value\<close>, \<open>get_config_value\<close> and
  \<open>add_str_to_file\<close>.\<close>

definition read_lines :: "fs \<Rightarrow> path \<Rightarrow> string list" where
  "read_lines fs filename =
     (case fs filename of None \<Rightarrow> [] | Some text \<Rightarrow> split_lines (universal_newlines text))"

section \<open>Errors and regular expressions\<close>

datatype error = ReError | IndexError | ValueError | NameError | EOFError

text \<open>
  \<open>re.search\<close> and \<open>re.match\<close> of Python's standard library. A pattern without any of
  the special characters \<open>. ^ $ * + ? { } [ ] \ | ( )\<close> matches exactly itself:
  \<open>re.search\<close> is then the substring test and \<open>re.match\<close> the prefix test. Every other
  pattern is left to the parameter \<open>rx\<close>, the regular expression compiler: \<open>rx pat\<close> is
  \<open>None\<close> when compiling \<open>pat\<close> raises \<open>re.error\<close>, and otherwise the pair of the search
  and the match test of the compiled pattern.
\<close>

type_synonym regex = "(string \<Rightarrow> bool) \<times> (string \<Rightarrow> bool)"
type_synonym re_engine = "string \<Rightarrow> regex option"

definition re_special :: "char \<Rightarrow> bool" where
  "re_special c = (c \<in> set (CHR 0x5C # ''.^$*+?{}[]|()''))"

definition re_literal :: "string \<Rightarrow> bool" where
  "re_literal pat = (\<forall>c \<in> set pat. \<not> re_special c)"

definition re_search :: "re_engine \<Rightarrow> string \<Rightarrow> string \<Rightarrow> error + bool" where
  "re_search rx pat s =
     (if re_literal pat then Inr (sublist pat s)
      else (case rx pat of None \<Rightarrow> Inl ReError | Some r \<Rightarrow> Inr (fst r s)))"

definition re_match :: "re_engine \<Rightarrow> string \<Rightarrow> string \<Rightarrow> error + bool" where
  "re_match rx pat s =
     (if re_literal pat then Inr (prefix pat s)
      else (case rx pat of None \<Rightarrow> Inl ReError | Some r \<Rightarrow> Inr (snd r s)))"

section \<open>\<open>common_utils.py\<close>: the configuration store\<close>

subsection \<open>\<open>get_config_value\<close>\<close>

text \<open>The four loops of \<open>get_config_value\<close>, one for each lookup mode; \<open>break\<close> ends the
  recursion.\<close>

fun scan_bool :: "string \<Rightarrow> string list \<Rightarrow> string" where
  "scan_bool macro [] = []"
| "scan_bool macro (line # lines) =
     (let line = py_strip line in
      if startswith line (macro @ ''='')
      then py_replace [DQUOTE] [] (py_replace (macro @ ''='') [] line)
      else scan_bool macro lines)"

fun scan_choice :: "string \<Rightarrow> string \<Rightarrow> string list \<Rightarrow> string" where
  "scan_choice macro end_macro [] = []"
| "scan_choice macro end_macro (line # lines) =
     (let line = py_strip line in
      if startswith line macro \<and> endswith line end_macro
      then py_replace end_macro [] (py_replace macro [] line)
      else scan_choice macro end_macro lines)"

fun scan_choicelist :: "string \<Rightarrow> string \<Rightarrow> string \<Rightarrow> string list \<Rightarrow> string" where
  "scan_choicelist macro end_macro val [] = val"
| "scan_choicelist macro end_macro val (line # lines) =
     (let line = py_strip line in
      if startswith line macro \<and> endswith line end_macro
      then scan_choicelist macro end_macro
             (val @ '' '' @ py_replace end_macro [] (py_replace macro [] line)) lines
      else scan_choicelist macro end_macro val lines)"

fun scan_asterisk :: "re_engine \<Rightarrow> string \<Rightarrow> string \<Rightarrow> string list \<Rightarrow> error + string" where
  "scan_asterisk rx macro end_macro [] = Inr []"
| "scan_asterisk rx macro end_macro (line # lines) =
     (let line = py_strip line in
      if startswith line macro
      then (case re_search rx end_macro line of
              Inl e \<Rightarrow> Inl e
            | Inr True \<Rightarrow>
                (case py_split (CHR ''='') line of
                   f0 # f1 # fs \<Rightarrow> Inr (py_replace [DQUOTE] [] f1)
                 | _ \<Rightarrow> Inl IndexError)
            | Inr False \<Rightarrow> scan_asterisk rx macro end_macro lines)
      else scan_asterisk rx macro end_macro lines)"

text \<open>
  \<open>get_config_value(macro, filename, Type='bool', end_macro='=y')\<close>. The file is opened
  for reading only; the model returns the file system next to the value, as every
  function on files does here, and returns it as it was.
\<close>

definition get_config_value ::
    "re_engine \<Rightarrow> string \<Rightarrow> path \<Rightarrow> string \<Rightarrow> string \<Rightarrow> fs \<Rightarrow> (error + string) \<times> fs" where
  "get_config_value rx macro filename Type end_macro fs =
     (let lines = read_lines fs filename in
      (if Type = ''bool'' then Inr (scan_bool macro lines)
       else if Type = ''choice'' then Inr (scan_choice macro end_macro lines)
       else if Type = ''choicelist'' then Inr (scan_choicelist macro end_macro [] lines)
       else if Type = ''asterisk'' then scan_asterisk rx macro end_macro lines
       else Inr [],
       fs))"

subsection \<open>\<open>update_config_value\<close> and \<open>CreateFile\<close>\<close>

text \<open>
  The loop of \<open>update_config_value\<close> inside \<open>with open(filename, 'w')\<close>: \<open>out\<close> is the text
  written so far. \<open>or\<close> evaluates its second operand only when the first search finds
  nothing. When \<open>re.search\<close> raises, the file keeps what was written before.
\<close>

fun write_kept :: "re_engine \<Rightarrow> string \<Rightarrow> string list \<Rightarrow> string \<Rightarrow> error option \<times> string" where
  "write_kept rx macro [] out = (None, out)"
| "write_kept rx macro (line # lines) out =
     (case re_search rx (''# '' @ macro @ '' is not set'') line of
        Inl e \<Rightarrow> (Some e, out)
      | Inr True \<Rightarrow> write_kept rx macro lines out
      | Inr False \<Rightarrow>
          (case re_search rx (macro @ ''='') line of
             Inl e \<Rightarrow> (Some e, out)
           | Inr True \<Rightarrow> write_kept rx macro lines out
           | Inr False \<Rightarrow> write_kept rx macro lines (out @ line)))"

definition update_config_value ::
    "re_engine \<Rightarrow> string \<Rightarrow> string \<Rightarrow> path \<Rightarrow> fs \<Rightarrow> (error + unit) \<times> fs" where
  "update_config_value rx macro val filename fs =
     (let lines = read_lines fs filename in
      case write_kept rx macro lines [] of
        (Some e, out) \<Rightarrow> (Inl e, fs(filename \<mapsto> out))
      | (None, out) \<Rightarrow>
          (Inr (),
           fs(filename \<mapsto>
                (if val = ''disable'' then out @ ''# '' @ macro @ '' is not set'' @ [LF]
                 else out @ macro @ ''='' @ val @ [LF]))))"

definition CreateFile :: "path \<Rightarrow> fs \<Rightarrow> fs" where
  "CreateFile filepath fs = (if filepath \<in> dom fs then fs else fs(filepath \<mapsto> []))"

subsection \<open>\<open>add_offsets\<close>\<close>

text \<open>
  \<open>int(s, base=16)\<close>: white space around the number is skipped (of the characters below
  256, \<open>int\<close> skips tab, line feed, vertical tab, form feed, carriage return, space, 0x85
  and 0xA0); then come an optional sign, an optional \<open>0x\<close> or \<open>0X\<close> that one underscore
  may follow, and hexadecimal digits, with single underscores between digits only.
  Everything else raises \<open>ValueError\<close>, here \<open>None\<close>.
\<close>

definition int_space :: "char \<Rightarrow> bool" where
  "int_space c = (c \<in> set [CHR 0x09, CHR 0x0A, CHR 0x0B, CHR 0x0C, CHR 0x0D, CHR 0x20,
                            CHR 0x85, CHR 0xA0])"

definition hex_value :: "char \<Rightarrow> nat option" where
  "hex_value c =
     (let n = of_char c :: nat in
      if 48 \<le> n \<and> n \<le> 57 then Some (n - 48)
      else if 97 \<le> n \<and> n \<le> 102 then Some (n - 87)
      else if 65 \<le> n \<and> n \<le> 70 then Some (n - 55)
      else None)"

fun hex_digits_value :: "int \<Rightarrow> string \<Rightarrow> int option" where
  "hex_digits_value acc [] = Some acc"
| "hex_digits_value acc (c # s) =
     (if c = CHR ''_'' then
        (case s of
           [] \<Rightarrow> None
         | d # _ \<Rightarrow> if hex_value d = None then None else hex_digits_value acc s)
      else (case hex_value c of
              None \<Rightarrow> None
            | Some v \<Rightarrow> hex_digits_value (16 * acc + int v) s))"

definition py_int16 :: "string \<Rightarrow> int option" where
  "py_int16 s =
     (let s1 = rev (dropWhile int_space (rev (dropWhile int_space s)));
          neg = (s1 \<noteq> [] \<and> hd s1 = CHR ''-'');
          s2 = (if s1 \<noteq> [] \<and> (hd s1 = CHR ''+'' \<or> hd s1 = CHR ''-'') then tl s1 else s1);
          s3 = (if prefix ''0x'' s2 \<or> prefix ''0X'' s2
                then (let r = drop 2 s2 in if prefix ''_'' r then tl r else r)
                else s2)
      in case s3 of
           [] \<Rightarrow> None
         | c # _ \<Rightarrow>
             if hex_value c = None then None
             else map_option (\<lambda>n. if neg then - n else n) (hex_digits_value 0 s3))"

text \<open>\<open>hex(i)\<close>: \<open>0x\<close> and the digits in lower case, after the sign of a negative number.\<close>

definition hex_char :: "nat \<Rightarrow> char" where
  "hex_char d = ''0123456789abcdef'' ! d"

function hex_int :: "int \<Rightarrow> string" where
  "hex_int n =
     (if n < 16 then [hex_char (nat n)] else hex_int (n div 16) @ [hex_char (nat (n mod 16))])"
  by pat_completeness auto
termination
  by (relation "measure nat") auto

declare hex_int.simps [simp del]

definition py_hex :: "int \<Rightarrow> string" where
  "py_hex i = (if i < 0 then ''-0x'' @ hex_int (- i) else ''0x'' @ hex_int i)"

definition add_offsets :: "string \<Rightarrow> string \<Rightarrow> error + string" where
  "add_offsets start end' =
     (case py_int16 start of
        None \<Rightarrow> Inl ValueError
      | Some a \<Rightarrow> (case py_int16 end' of
                     None \<Rightarrow> Inl ValueError
                   | Some b \<Rightarrow> Inr (py_hex (a + b))))"

subsection \<open>\<open>add_str_to_file\<close>\<close>

text \<open>The modes that the callers of \<open>add_str_to_file\<close> pass to \<open>open\<close>: \<open>'w'\<close>, \<open>'a'\<close> and
  \<open>'a+'\<close>. The loop matches the string, as a pattern, against every line, also when
  \<open>ignore_if_exists\<close> is false and the result is not used.\<close>

datatype file_mode = Mode_w | Mode_a | Mode_a_plus

fun match_lines :: "re_engine \<Rightarrow> string \<Rightarrow> string list \<Rightarrow> bool \<Rightarrow> error + bool" where
  "match_lines rx str [] string_found = Inr string_found"
| "match_lines rx str (line # lines) string_found =
     (case re_match rx str line of
        Inl e \<Rightarrow> Inl e
      | Inr m \<Rightarrow> match_lines rx str lines (if m then True else string_found))"

definition add_str_to_file ::
    "re_engine \<Rightarrow> path \<Rightarrow> string \<Rightarrow> bool \<Rightarrow> file_mode \<Rightarrow> fs \<Rightarrow> (error + unit) \<times> fs" where
  "add_str_to_file rx filename str ignore_if_exists mode fs =
     (case match_lines rx str (read_lines fs filename) False of
        Inl e \<Rightarrow> (Inl e, fs)
      | Inr string_found \<Rightarrow>
          if \<not> ignore_if_exists \<or> \<not> string_found
          then (Inr (),
                fs(filename \<mapsto>
                     (case mode of
                        Mode_w \<Rightarrow> str
                      | _ \<Rightarrow> (case fs filename of None \<Rightarrow> [] | Some text \<Rightarrow> text) @ str)))
          else (Inr (), fs))"

section \<open>\<open>plnx_utils.py\<close>\<close>

text \<open>
  The module \<open>plnx_vars\<close> is not among the sources. Its constants are the fields of the
  record \<open>plnx_vars\<close>, a parameter of every function that reads one; a constant that the
  source formats (\<open>plnx_vars.MetaDataFile.format(proot)\<close>) is a function of the arguments
  of \<open>format\<close>, and an entry of a dictionary (\<open>plnx_vars.FlashConfs['Name']\<close>) is a field
  of its own.
\<close>

record plnx_vars =
  MetaDataFile :: "string \<Rightarrow> path"
  SysConfFile :: "string \<Rightarrow> path"
  PetaLinux_Ver_Str :: string
  PetaLinux_Ver :: string
  SOC_VariantConf :: string
  ARCH_Conf :: "string \<Rightarrow> string"
  Xilinx_Arch_Conf :: "string \<Rightarrow> string"
  SdtAutoConf :: "string \<Rightarrow> path"
  AutoBootArgsConf :: string
  BootArgsCmdLineConf :: string
  SdtSystemConfDtsi :: "string \<Rightarrow> string \<Rightarrow> path"
  SystemconfBootargs :: "string \<Rightarrow> string"
  EthConfs_Prefix :: string
  EthConfs_Mac :: string
  SystemconfEth :: "string \<Rightarrow> string \<Rightarrow> string"
  FlashIpConf :: string
  SystemconfFlash :: "string \<Rightarrow> string"
  FlashConfs_Prefix :: string
  FlashConfs_Name :: string
  FlashConfs_Size :: string
  FlashPartNode :: "nat \<Rightarrow> string \<Rightarrow> string \<Rightarrow> string \<Rightarrow> string"
  FlashendSymbols :: string

text \<open>Sequencing of two steps on the file system: an exception of the first step ends
  the function.\<close>

definition io_bind ::
    "(fs \<Rightarrow> (error + 'a) \<times> fs) \<Rightarrow> ('a \<Rightarrow> fs \<Rightarrow> (error + 'b) \<times> fs) \<Rightarrow> fs \<Rightarrow> (error + 'b) \<times> fs" where
  "io_bind m f fs = (case m fs of (Inl e, fs') \<Rightarrow> (Inl e, fs') | (Inr x, fs') \<Rightarrow> f x fs')"

definition io_return :: "'a \<Rightarrow> fs \<Rightarrow> (error + 'a) \<times> fs" where
  "io_return x fs = (Inr x, fs)"

definition io_raise :: "error \<Rightarrow> fs \<Rightarrow> (error + 'a) \<times> fs" where
  "io_raise e fs = (Inl e, fs)"

definition is_hwflow_sdt :: "plnx_vars \<Rightarrow> re_engine \<Rightarrow> string \<Rightarrow> fs \<Rightarrow> (error + string) \<times> fs" where
  "is_hwflow_sdt pv rx proot =
     io_bind (get_config_value rx ''HDF_EXT'' (MetaDataFile pv proot) ''bool'' ''=y'')
       (\<lambda>hdf_ext. io_return (if hdf_ext = ''dts'' then ''sdt'' else hdf_ext))"

text \<open>
  \<open>petalinux_version_check\<close>. \<open>environ\<close> is \<open>os.environ\<close>; \<open>answer\<close> is the line that
  \<open>input\<close> reads, \<open>None\<close> at the end of the input. The names \<open>petalinux_ver\<close> and
  \<open>metadata_file\<close> of the call after a yes are bound nowhere: not in the function, not
  in the module, not by \<open>from common_utils import *\<close>. Evaluating the arguments of that
  call raises \<open>NameError\<close> before \<open>update_config_value\<close> runs. Messages of the logger are
  not modelled.
\<close>

definition petalinux_version_check ::
    "plnx_vars \<Rightarrow> re_engine \<Rightarrow> (string \<rightharpoonup> string) \<Rightarrow> string option \<Rightarrow> string \<Rightarrow> fs
      \<Rightarrow> (error + bool) \<times> fs" where
  "petalinux_version_check pv rx environ answer proot fs =
     io_bind (get_config_value rx (PetaLinux_Ver_Str pv) (MetaDataFile pv proot) ''bool'' ''=y'')
       (\<lambda>proj_version.
          if proj_version = [] then
            io_bind (update_config_value rx (PetaLinux_Ver_Str pv) (PetaLinux_Ver pv)
                       (MetaDataFile pv proot))
              (\<lambda>_. io_return True)
          else if PetaLinux_Ver pv \<noteq> proj_version then
            (if (case environ ''PLNX_IGNORE_VER_CHK'' of None \<Rightarrow> [] | Some v \<Rightarrow> v) \<noteq> []
             then io_return True
             else (case answer of
                     None \<Rightarrow> io_raise EOFError
                   | Some userchoice \<Rightarrow>
                       if userchoice \<in> set [''y'', ''Y'', ''yes'', ''Yes'', ''YEs'', ''YES'']
                       then io_raise NameError
                       else io_return False))
          else io_return True)
       (CreateFile (MetaDataFile pv proot) fs)"

definition get_soc_variant :: "plnx_vars \<Rightarrow> re_engine \<Rightarrow> string \<Rightarrow> fs \<Rightarrow> (error + string) \<times> fs" where
  "get_soc_variant pv rx proot =
     io_bind (get_config_value rx (SOC_VariantConf pv) (SysConfFile pv proot) ''choice'' ''=y'')
       (\<lambda>variant. io_return (py_lower variant))"

definition get_system_arch :: "plnx_vars \<Rightarrow> re_engine \<Rightarrow> string \<Rightarrow> fs \<Rightarrow> (error + string) \<times> fs" where
  "get_system_arch pv rx proot =
     io_bind (get_config_value rx (ARCH_Conf pv proot) (SysConfFile pv proot) ''choice'' ''=y'')
       (\<lambda>arch. io_return (py_lower arch))"

definition get_xilinx_arch :: "plnx_vars \<Rightarrow> re_engine \<Rightarrow> string \<Rightarrow> fs \<Rightarrow> (error + string) \<times> fs" where
  "get_xilinx_arch pv rx proot =
     io_bind (get_config_value rx (Xilinx_Arch_Conf pv proot) (SysConfFile pv proot)
                ''choice'' ''=y'')
       (\<lambda>xilinx_arch0.
          let xilinx_arch = py_lower xilinx_arch0 in
          if xilinx_arch = ''versal'' then
            io_bind (get_soc_variant pv rx proot)
              (\<lambda>soc_variant.
                 io_return (if soc_variant = ''versalnet'' then ''versal-net'' else xilinx_arch))
          else io_return xilinx_arch)"

text \<open>\<open>'%s' % num\<close>: a number in decimal digits.\<close>

function dec_nat :: "nat \<Rightarrow> string" where
  "dec_nat n = (if n < 10 then [hex_char n] else dec_nat (n div 10) @ [hex_char (n mod 10)])"
  by pat_completeness auto
termination
  by (relation "measure id") auto

declare dec_nat.simps [simp del]

text \<open>
  The loop \<open>for num in range(0, 19)\<close> of \<open>gen_sysconf_dtsi_file\<close>, over the numbers that
  are left; \<open>dtsi\<close> is the file that the nodes are appended to. \<open>break\<close> ends the
  recursion.
\<close>

fun flash_loop ::
    "plnx_vars \<Rightarrow> re_engine \<Rightarrow> string \<Rightarrow> path \<Rightarrow> nat list \<Rightarrow> string \<Rightarrow> string \<Rightarrow> fs
      \<Rightarrow> (error + unit) \<times> fs" where
  "flash_loop pv rx proot dtsi [] prev_part_offset prev_part_size fs = (Inr (), fs)"
| "flash_loop pv rx proot dtsi (num # nums) prev_part_offset prev_part_size fs =
     (case add_offsets prev_part_offset prev_part_size of
        Inl e \<Rightarrow> (Inl e, fs)
      | Inr part_offset \<Rightarrow>
          (case get_config_value rx
                  (FlashConfs_Prefix pv @ dec_nat num @ FlashConfs_Name pv)
                  (SysConfFile pv proot) ''bool'' ''=y'' fs of
             (Inl e, fs1) \<Rightarrow> (Inl e, fs1)
           | (Inr part_name, fs1) \<Rightarrow>
               (case get_config_value rx
                       (FlashConfs_Prefix pv @ dec_nat num @ FlashConfs_Size pv)
                       (SysConfFile pv proot) ''bool'' ''=y'' fs1 of
                  (Inl e, fs2) \<Rightarrow> (Inl e, fs2)
                | (Inr part_size, fs2) \<Rightarrow>
                    if part_name \<noteq> [] then
                      (case add_str_to_file rx dtsi
                              (FlashPartNode pv num part_name part_offset part_size)
                              False Mode_a fs2 of
                         (Inl e, fs3) \<Rightarrow> (Inl e, fs3)
                       | (Inr _, fs3) \<Rightarrow>
                           flash_loop pv rx proot dtsi nums part_offset part_size fs3)
                    else (Inr (), fs2))))"

definition gen_sysconf_dtsi_file ::
    "plnx_vars \<Rightarrow> re_engine \<Rightarrow> string \<Rightarrow> fs \<Rightarrow> (error + unit) \<times> fs" where
  "gen_sysconf_dtsi_file pv rx proot =
     io_bind (get_config_value rx ''MACHINE '' (SdtAutoConf pv proot) ''bool'' ''=y'')
       (\<lambda>machine.
     let sdt_machine = py_strip machine;
         dtsi = SdtSystemConfDtsi pv proot sdt_machine in
     io_bind (get_config_value rx (AutoBootArgsConf pv) (SysConfFile pv proot) ''bool'' ''=y'')
       (\<lambda>bootargs0.
     io_bind (if bootargs0 = []
              then get_config_value rx (BootArgsCmdLineConf pv) (SysConfFile pv proot)
                     ''bool'' ''=y''
              else io_return bootargs0)
       (\<lambda>bootargs.
     io_bind (add_str_to_file rx dtsi (SystemconfBootargs pv bootargs) False Mode_w)
       (\<lambda>_.
     io_bind (get_config_value rx (EthConfs_Prefix pv) (SysConfFile pv proot)
                ''choice'' ''_SELECT=y'')
       (\<lambda>eth_ipname0.
     let eth_ipname = py_lower eth_ipname0 in
     io_bind (get_config_value rx (EthConfs_Prefix pv) (SysConfFile pv proot)
                ''asterisk'' (EthConfs_Mac pv))
       (\<lambda>eth_mac0.
     let eth_mac = py_replace '':'' '' '' eth_mac0 in
     io_bind (if eth_ipname \<noteq> ''manual''
              then add_str_to_file rx dtsi (SystemconfEth pv eth_ipname eth_mac) False Mode_a
              else io_return ())
       (\<lambda>_.
     io_bind (get_config_value rx (FlashIpConf pv) (SysConfFile pv proot) ''bool'' ''=y'')
       (\<lambda>flash_ipname.
     if flash_ipname \<noteq> [] then
       io_bind (add_str_to_file rx dtsi (SystemconfFlash pv flash_ipname) False Mode_a)
         (\<lambda>_.
       io_bind (flash_loop pv rx proot dtsi [0..<19] ''0x0'' ''0x0'')
         (\<lambda>_.
       add_str_to_file rx dtsi (FlashendSymbols pv) False Mode_a))
     else io_return ()))))))))"

section \<open>Parameters of the examples\<close>

text \<open>
  The examples need a regular expression compiler and an instance of \<open>plnx_vars\<close>.
  Every pattern of the examples is free of special characters, so none reaches the
  compiler; \<open>re_none\<close> rejects whatever it is given. The theorems hold for every compiler
  and every instance.
\<close>

definition re_none :: re_engine where
  "re_none pat = None"

definition example_vars :: plnx_vars where
  "example_vars =
     \<lparr>MetaDataFile = (\<lambda>proot. proot @ ''/.petalinux/metadata''),
      SysConfFile = (\<lambda>proot. proot @ ''/project-spec/configs/config''),
      PetaLinux_Ver_Str = ''PETALINUX_VER'',
      PetaLinux_Ver = ''2024.1'',
      SOC_VariantConf = ''CONFIG_SUBSYSTEM_VARIANT_'',
      ARCH_Conf = (\<lambda>proot. ''CONFIG_SUBSYSTEM_ARCH_''),
      Xilinx_Arch_Conf = (\<lambda>proot. ''CONFIG_SYSTEM_''),
      SdtAutoConf = (\<lambda>proot. proot @ ''/build/conf/sdt-auto.conf''),
      AutoBootArgsConf = ''CONFIG_BOOTARGS'',
      BootArgsCmdLineConf = ''CONFIG_CMDLINE'',
      SdtSystemConfDtsi = (\<lambda>proot machine. proot @ ''/build/'' @ machine @ ''-system-conf.dtsi''),
      SystemconfBootargs = (\<lambda>bootargs. ''bootargs = <'' @ bootargs @ ''>;'' @ [LF]),
      EthConfs_Prefix = ''CONFIG_ETH_'',
      EthConfs_Mac = ''_MAC='',
      SystemconfEth = (\<lambda>ipname mac. ''&'' @ ipname @ '' local-mac-address = <'' @ mac @ ''>;'' @ [LF]),
      FlashIpConf = ''CONFIG_FLASH_IP_NAME'',
      SystemconfFlash = (\<lambda>ipname. ''&'' @ ipname @ '' partitions:'' @ [LF]),
      FlashConfs_Prefix = ''CONFIG_PART'',
      FlashConfs_Name = ''_NAME'',
      FlashConfs_Size = ''_SIZE'',
      FlashPartNode = (\<lambda>num name offset size.
         ''partition@'' @ dec_nat num @ '' label = '' @ name @ '' reg = <'' @ offset @ '' ''
         @ size @ ''>;'' @ [LF]),
      FlashendSymbols = ''end of partitions;'' @ [LF]\<rparr>"

text \<open>A project for the examples of \<open>gen_sysconf_dtsi_file\<close>: the machine is \<open>board\<close>, the
  Ethernet is set up by hand, the flash \<open>qspi\<close> has three partitions of the sizes
  \<open>0x1000\<close>, \<open>0x2000\<close> and \<open>0x4000\<close>, and slot 3 has no name.\<close>

definition example_config :: string where
  "example_config =
     ''CONFIG_FLASH_IP_NAME='' @ [DQUOTE] @ ''qspi'' @ [DQUOTE, LF]
     @ ''CONFIG_PART0_NAME='' @ [DQUOTE] @ ''boot'' @ [DQUOTE, LF]
     @ ''CONFIG_PART0_SIZE=0x1000'' @ [LF]
     @ ''CONFIG_PART1_NAME='' @ [DQUOTE] @ ''kernel'' @ [DQUOTE, LF]
     @ ''CONFIG_PART1_SIZE=0x2000'' @ [LF]
     @ ''CONFIG_PART2_NAME='' @ [DQUOTE] @ ''rootfs'' @ [DQUOTE, LF]
     @ ''CONFIG_PART2_SIZE=0x4000'' @ [LF]
     @ ''CONFIG_ETH_MANUAL_SELECT=y'' @ [LF]"

definition example_files :: fs where
  "example_files =
     [''proj/project-spec/configs/config'' \<mapsto> example_config,
      ''proj/build/conf/sdt-auto.conf'' \<mapsto> ''MACHINE = '' @ [DQUOTE] @ ''board'' @ [DQUOTE, LF]]"

text \<open>
  A compiler for the example with the macro \<open>A+\<close>. It knows the two patterns that
  \<open>update_config_value\<close> builds from this macro, \<open># A+ is not set\<close> and \<open>A+=\<close>, in which
  \<open>A+\<close> stands for one or more \<open>A\<close>. \<open>plus_at pre c post s\<close>: \<open>s\<close> starts with \<open>pre\<close>, one or
  more \<open>c\<close> and \<open>post\<close>, for a \<open>post\<close> that does not start with \<open>c\<close>; \<open>plus_search\<close> looks
  for this at every position of \<open>s\<close>.
\<close>

definition plus_at :: "string \<Rightarrow> char \<Rightarrow> string \<Rightarrow> string \<Rightarrow> bool" where
  "plus_at pre c post s =
     (prefix pre s \<and>
      (let r = drop (length pre) s
       in r \<noteq> [] \<and> hd r = c \<and> prefix post (dropWhile (\<lambda>x. x = c) r)))"

definition plus_search :: "string \<Rightarrow> char \<Rightarrow> string \<Rightarrow> string \<Rightarrow> bool" where
  "plus_search pre c post s = list_ex (\<lambda>i. plus_at pre c post (drop i s)) [0..<Suc (length s)]"

definition re_example :: re_engine where
  "re_example pat =
     (if pat = ''# A+ is not set''
      then Some (plus_search ''# '' (CHR ''A'') '' is not set'',
                 plus_at ''# '' (CHR ''A'') '' is not set'')
      else if pat = ''A+=''
      then Some (plus_search [] (CHR ''A'') ''='', plus_at [] (CHR ''A'') ''='')
      else None)"

definition no_environ :: "string \<rightharpoonup> string" where
  "no_environ = Map.empty"

definition no_files :: fs where
  "no_files = Map.empty"

section \<open>Well-formed macros, values and files\<close>

text \<open>
  A macro name has no character that is special in a regular expression, no white space
  and no \<open>=\<close>; the symbols of a KConfig file are such names. A value of one line has no
  line break. A text is terminated when it is empty or ends with a line break.
\<close>

definition plain_macro :: "string \<Rightarrow> bool" where
  "plain_macro macro = (\<forall>c \<in> set macro. \<not> re_special c \<and> \<not> py_isspace c \<and> c \<noteq> CHR ''='')"

definition one_line :: "string \<Rightarrow> bool" where
  "one_line s = (LF \<notin> set s \<and> CR \<notin> set s)"

definition terminated :: "string \<Rightarrow> bool" where
  "terminated text = (text = [] \<or> last text = LF \<or> last text = CR)"

definition terminated_file :: "fs \<Rightarrow> path \<Rightarrow> bool" where
  "terminated_file fs filename = (case fs filename of None \<Rightarrow> True | Some text \<Rightarrow> terminated text)"

text \<open>A stripped line that the loop of the lookup mode passes over.\<close>

definition no_match :: "re_engine \<Rightarrow> string \<Rightarrow> string \<Rightarrow> string \<Rightarrow> string \<Rightarrow> bool" where
  "no_match rx macro Type end_macro line =
     (if Type = ''bool'' then \<not> startswith line (macro @ ''='')
      else if Type = ''choice'' \<or> Type = ''choicelist''
        then \<not> (startswith line macro \<and> endswith line end_macro)
      else if Type = ''asterisk''
        then (startswith line macro \<longrightarrow> re_search rx end_macro line = Inr False)
      else True)"

text \<open>A line that the loop of \<open>update_config_value\<close> drops: one of its two searches
  finds the macro.\<close>

definition macro_line :: "re_engine \<Rightarrow> string \<Rightarrow> string \<Rightarrow> bool" where
  "macro_line rx macro line =
     (re_search rx (''# '' @ macro @ '' is not set'') line = Inr True
      \<or> re_search rx (macro @ ''='') line = Inr True)"

text \<open>The line that \<open>update_config_value\<close> writes last.\<close>

definition new_line :: "string \<Rightarrow> string \<Rightarrow> string" where
  "new_line macro val =
     (if val = ''disable'' then ''# '' @ macro @ '' is not set'' @ [LF]
      else macro @ ''='' @ val @ [LF])"

text \<open>The spec's words for the result of a lookup after an update: the value with
  surrounding double quotes stripped.\<close>

definition strip_surrounding_quotes :: "string \<Rightarrow> string" where
  "strip_surrounding_quotes val =
     rev (dropWhile (\<lambda>c. c = DQUOTE) (rev (dropWhile (\<lambda>c. c = DQUOTE) val)))"

section \<open>Flash partitions in the words of the spec\<close>

text \<open>
  The name and the size that the system configuration stores for a partition slot, the
  start offset of a slot (\<open>0x0\<close> for slot 0, and for every further slot the sum, written
  in hexadecimal, of the offset and the size of the slot before it) and the partition
  node of a slot. \<open>dtsi_file\<close>, \<open>bootargs_of\<close>, \<open>eth_fragment\<close> and \<open>flash_ipname_of\<close> name
  the file that \<open>gen_sysconf_dtsi_file\<close> writes and the values it puts before the nodes.
\<close>

definition part_name :: "plnx_vars \<Rightarrow> string \<Rightarrow> fs \<Rightarrow> nat \<Rightarrow> string" where
  "part_name pv proot fs num =
     scan_bool (FlashConfs_Prefix pv @ dec_nat num @ FlashConfs_Name pv)
       (read_lines fs (SysConfFile pv proot))"

definition part_size :: "plnx_vars \<Rightarrow> string \<Rightarrow> fs \<Rightarrow> nat \<Rightarrow> string" where
  "part_size pv proot fs num =
     scan_bool (FlashConfs_Prefix pv @ dec_nat num @ FlashConfs_Size pv)
       (read_lines fs (SysConfFile pv proot))"

fun part_offset :: "plnx_vars \<Rightarrow> string \<Rightarrow> fs \<Rightarrow> nat \<Rightarrow> error + string" where
  "part_offset pv proot fs 0 = Inr ''0x0''"
| "part_offset pv proot fs (Suc num) =
     (case part_offset pv proot fs num of
        Inl e \<Rightarrow> Inl e
      | Inr offset \<Rightarrow> add_offsets offset (part_size pv proot fs num))"

definition part_node :: "plnx_vars \<Rightarrow> string \<Rightarrow> fs \<Rightarrow> nat \<Rightarrow> string" where
  "part_node pv proot fs num =
     (case part_offset pv proot fs num of
        Inl e \<Rightarrow> []
      | Inr offset \<Rightarrow>
          FlashPartNode pv num (part_name pv proot fs num) offset (part_size pv proot fs num))"

definition dtsi_file :: "plnx_vars \<Rightarrow> string \<Rightarrow> fs \<Rightarrow> path" where
  "dtsi_file pv proot fs =
     SdtSystemConfDtsi pv proot
       (py_strip (scan_bool ''MACHINE '' (read_lines fs (SdtAutoConf pv proot))))"

definition bootargs_of :: "plnx_vars \<Rightarrow> string \<Rightarrow> fs \<Rightarrow> string" where
  "bootargs_of pv proot fs =
     (let bootargs = scan_bool (AutoBootArgsConf pv) (read_lines fs (SysConfFile pv proot))
      in if bootargs = []
         then scan_bool (BootArgsCmdLineConf pv) (read_lines fs (SysConfFile pv proot))
         else bootargs)"

definition eth_fragment :: "plnx_vars \<Rightarrow> re_engine \<Rightarrow> string \<Rightarrow> fs \<Rightarrow> error + string" where
  "eth_fragment pv rx proot fs =
     (let eth_ipname = py_lower (scan_choice (EthConfs_Prefix pv) ''_SELECT=y''
                                   (read_lines fs (SysConfFile pv proot)))
      in case scan_asterisk rx (EthConfs_Prefix pv) (EthConfs_Mac pv)
                (read_lines fs (SysConfFile pv proot)) of
           Inl e \<Rightarrow> Inl e
         | Inr eth_mac \<Rightarrow>
             Inr (if eth_ipname \<noteq> ''manual''
                  then SystemconfEth pv eth_ipname (py_replace '':'' '' '' eth_mac)
                  else []))"

definition flash_ipname_of :: "plnx_vars \<Rightarrow> string \<Rightarrow> fs \<Rightarrow> string" where
  "flash_ipname_of pv proot fs =
     scan_bool (FlashIpConf pv) (read_lines fs (SysConfFile pv proot))"

text \<open>A pattern that \<open>re.match\<close> takes without raising.\<close>

definition re_accepts :: "re_engine \<Rightarrow> string \<Rightarrow> bool" where
  "re_accepts rx pat = (re_literal pat \<or> rx pat \<noteq> None)"

text \<open>A line with its line break at the end and nowhere else.\<close>

definition full_line :: "string \<Rightarrow> bool" where
  "full_line l = (\<exists>b. l = b @ [LF] \<and> LF \<notin> set b)"

text \<open>The text of a file as the source reads it; an absent file reads as empty.\<close>

definition file_text :: "fs \<Rightarrow> path \<Rightarrow> string" where
  "file_text fs filename = (case fs filename of None \<Rightarrow> [] | Some text \<Rightarrow> universal_newlines text)"

section \<open>Facts about lines, strings and the two store functions\<close>

lemma universal_newlines_no_CR: "CR \<notin> set (universal_newlines s)"
  by (induction s rule: universal_newlines.induct) auto

lemma universal_newlines_id: "CR \<notin> set s \<Longrightarrow> universal_newlines s = s"
  by (induction s rule: universal_newlines.induct) auto

lemma universal_newlines_Nil: "universal_newlines s = [] \<longleftrightarrow> s = []"
  by (induction s rule: universal_newlines.induct) auto

lemma universal_newlines_last:
  "terminated s \<Longrightarrow> universal_newlines s = [] \<or> last (universal_newlines s) = LF"
  by (induction s rule: universal_newlines.induct)
     (auto simp: terminated_def universal_newlines_Nil split: if_splits)

lemma concat_split_lines: "concat (split_lines s) = s"
  by (induction s) (auto split: list.splits)

lemma split_lines_Nil: "split_lines s = [] \<longleftrightarrow> s = []"
  by (cases s) (auto split: list.splits)

lemma split_lines_line: "LF \<notin> set b \<Longrightarrow> split_lines (b @ LF # s) = (b @ [LF]) # split_lines s"
  by (induction b) auto

lemma split_lines_partial: "LF \<notin> set b \<Longrightarrow> b \<noteq> [] \<Longrightarrow> split_lines b = [b]"
proof (induction b)
  case Nil
  then show ?case by simp
next
  case (Cons c b)
  then show ?case by (cases "b = []") (auto split: list.splits)
qed

lemma split_lines_full: "\<forall>l \<in> set F. full_line l \<Longrightarrow> split_lines (concat F @ s) = F @ split_lines s"
  by (induction F) (auto simp: full_line_def split_lines_line)

lemma split_lines_shape:
  "\<exists>F p. split_lines s = F @ (if p = [] then [] else [p]) \<and> (\<forall>l \<in> set F. full_line l) \<and> LF \<notin> set p"
proof (induction s)
  case Nil
  show ?case by (rule exI [of _ "[]"], rule exI [of _ "[]"]) simp
next
  case (Cons c s)
  then obtain F p where sh: "split_lines s = F @ (if p = [] then [] else [p])"
    "\<forall>l \<in> set F. full_line l" "LF \<notin> set p" by blast
  show ?case
  proof (cases "c = LF")
    case True
    have "full_line [LF]" unfolding full_line_def by (rule exI [of _ "[]"]) simp
    with sh True show ?thesis
      by (intro exI [of _ "[LF] # F"] exI [of _ p]) simp
  next
    case False
    show ?thesis
    proof (cases F)
      case Nil
      with sh False show ?thesis
        by (intro exI [of _ "[]"] exI [of _ "c # p"]) auto
    next
      case (Cons l F')
      with sh obtain b where "l = b @ [LF]" "LF \<notin> set b" by (auto simp: full_line_def)
      with False have "full_line (c # l)" unfolding full_line_def
        by (intro exI [of _ "c # b"]) simp
      with sh False Cons show ?thesis
        by (intro exI [of _ "(c # l) # F'"] exI [of _ p]) auto
    qed
  qed
qed


lemma re_literal_append: "re_literal (a @ b) \<longleftrightarrow> re_literal a \<and> re_literal b"
  by (auto simp: re_literal_def)

lemma plain_macro_literal:
  assumes "plain_macro macro"
  shows "re_literal (''# '' @ macro @ '' is not set'')" and "re_literal (macro @ ''='')"
proof -
  from assms have m: "re_literal macro" by (simp add: plain_macro_def re_literal_def)
  have "re_literal ''# ''" "re_literal '' is not set''" "re_literal ''=''"
    by (simp_all add: re_literal_def re_special_def)
  with m show "re_literal (''# '' @ macro @ '' is not set'')" and "re_literal (macro @ ''='')"
    by (simp_all only: re_literal_append)
qed

lemma macro_line_plain:
  "plain_macro macro \<Longrightarrow>
   macro_line rx macro line
   \<longleftrightarrow> sublist (''# '' @ macro @ '' is not set'') line \<or> sublist (macro @ ''='') line"
  using plain_macro_literal [of macro]
  by (simp add: macro_line_def re_search_def)

lemma write_kept_plain:
  assumes "plain_macro macro"
  shows "write_kept rx macro lines out
         = (None, out @ concat (filter (\<lambda>l. \<not> macro_line rx macro l) lines))"
proof (induction lines arbitrary: out)
  case Nil
  show ?case by simp
next
  case (Cons line lines)
  from plain_macro_literal [OF assms]
  have s: "re_search rx (''# '' @ macro @ '' is not set'') line
             = Inr (sublist (''# '' @ macro @ '' is not set'') line)"
          "re_search rx (macro @ ''='') line = Inr (sublist (macro @ ''='') line)"
    by (simp_all add: re_search_def)
  have m: "macro_line rx macro line
           \<longleftrightarrow> sublist (''# '' @ macro @ '' is not set'') line \<or> sublist (macro @ ''='') line"
    by (rule macro_line_plain [OF assms])
  show ?case
  proof (cases "sublist (''# '' @ macro @ '' is not set'') line")
    case True
    with s m show ?thesis by (simp add: Cons.IH)
  next
    case f1: False
    show ?thesis
    proof (cases "sublist (macro @ ''='') line")
      case True
      with f1 s m show ?thesis by (simp add: Cons.IH)
    next
      case False
      with f1 s m show ?thesis by (simp add: Cons.IH)
    qed
  qed
qed

lemma update_config_value_plain:
  assumes "plain_macro macro"
  shows "update_config_value rx macro val filename fs
         = (Inr (), fs(filename \<mapsto>
              concat (filter (\<lambda>l. \<not> macro_line rx macro l) (read_lines fs filename))
              @ new_line macro val))"
  by (simp add: update_config_value_def write_kept_plain [OF assms] new_line_def)


lemma plain_macro_chars:
  assumes "plain_macro macro"
  shows "LF \<notin> set macro" and "CR \<notin> set macro" and "CHR ''='' \<notin> set macro"
    and "\<forall>c \<in> set macro. \<not> py_isspace c"
  using assms by (auto simp: plain_macro_def py_isspace_def)

lemma new_line_shape:
  assumes "plain_macro macro" and "one_line val"
  shows "\<exists>b. new_line macro val = b @ [LF] \<and> LF \<notin> set b \<and> CR \<notin> set b"
proof (cases "val = ''disable''")
  case True
  with plain_macro_chars [OF assms(1)] show ?thesis
    by (intro exI [of _ "''# '' @ macro @ '' is not set''"]) (simp add: new_line_def)
next
  case False
  with plain_macro_chars [OF assms(1)] assms(2) show ?thesis
    by (intro exI [of _ "macro @ ''='' @ val"]) (simp add: new_line_def one_line_def)
qed

lemma macro_line_new_line:
  assumes "plain_macro macro"
  shows "macro_line rx macro (p @ new_line macro val)"
proof (cases "val = ''disable''")
  case True
  have "sublist (''# '' @ macro @ '' is not set'') (p @ (''# '' @ macro @ '' is not set'') @ [LF])"
    by (rule sublist_appendI)
  with True show ?thesis
    by (simp add: macro_line_plain [OF assms] new_line_def)
next
  case False
  have "sublist (macro @ ''='') (p @ (macro @ ''='') @ (val @ [LF]))"
    by (rule sublist_appendI)
  with False show ?thesis
    by (simp add: macro_line_plain [OF assms] new_line_def)
qed

lemma read_lines_file_text: "read_lines fs filename = split_lines (file_text fs filename)"
  by (simp add: read_lines_def file_text_def split: option.splits)

lemma file_text_no_CR: "CR \<notin> set (file_text fs filename)"
  by (simp add: file_text_def universal_newlines_no_CR split: option.splits)

lemma read_lines_no_CR: "l \<in> set (read_lines fs filename) \<Longrightarrow> CR \<notin> set l"
proof
  assume l: "l \<in> set (read_lines fs filename)" and c: "CR \<in> set l"
  then have "CR \<in> set (concat (split_lines (file_text fs filename)))"
    by (auto simp: read_lines_file_text)
  then show False by (simp add: concat_split_lines file_text_no_CR)
qed

lemma read_lines_update:
  assumes pm: "plain_macro macro" and ol: "one_line val"
  shows "\<exists>F p. read_lines fs filename = F @ (if p = [] then [] else [p])
           \<and> (\<forall>l \<in> set F. full_line l) \<and> LF \<notin> set p
           \<and> read_lines (snd (update_config_value rx macro val filename fs)) filename
               = filter (\<lambda>l. \<not> macro_line rx macro l) F
                 @ [(if macro_line rx macro p then [] else p) @ new_line macro val]"
proof -
  let ?keep = "\<lambda>l. \<not> macro_line rx macro l"
  obtain F p where sh: "read_lines fs filename = F @ (if p = [] then [] else [p])"
    "\<forall>l \<in> set F. full_line l" "LF \<notin> set p"
    using split_lines_shape [of "file_text fs filename"] by (auto simp: read_lines_file_text)
  obtain b where b: "new_line macro val = b @ [LF]" "LF \<notin> set b" "CR \<notin> set b"
    using new_line_shape [OF pm ol] by blast
  let ?p = "if macro_line rx macro p then [] else p"
  let ?text = "concat (filter ?keep F) @ ?p @ new_line macro val"
  have kept: "concat (filter ?keep (read_lines fs filename)) = concat (filter ?keep F) @ ?p"
    by (simp add: sh(1))
  have noCR: "CR \<notin> set ?text"
  proof -
    have "\<forall>l \<in> set F. CR \<notin> set l"
      using read_lines_no_CR [of _ fs filename] by (simp add: sh(1))
    moreover have "CR \<notin> set p"
      using read_lines_no_CR [of p fs filename] by (cases "p = []") (simp_all add: sh(1))
    ultimately show ?thesis using b by auto
  qed
  have full: "\<forall>l \<in> set (filter ?keep F). full_line l"
    using sh(2) by simp
  have "LF \<notin> set (?p @ b)" using sh(3) b(2) by simp
  then have "split_lines ((?p @ b) @ LF # []) = ((?p @ b) @ [LF]) # split_lines []"
    by (rule split_lines_line)
  then have last: "split_lines (?p @ new_line macro val) = [?p @ new_line macro val]"
    by (simp add: b(1))
  have "snd (update_config_value rx macro val filename fs) filename = Some ?text"
    by (simp add: update_config_value_plain [OF pm] kept)
  then have "read_lines (snd (update_config_value rx macro val filename fs)) filename
        = split_lines (universal_newlines ?text)"
    by (simp only: read_lines_def option.case)
  also have "\<dots> = split_lines ?text"
    by (subst universal_newlines_id [OF noCR]) (rule refl)
  also have "\<dots> = filter ?keep F @ split_lines (?p @ new_line macro val)"
    using full by (rule split_lines_full)
  finally show ?thesis using sh last by (intro exI [of _ F] exI [of _ p]) simp
qed


lemma py_strip_sublist: "sublist (py_strip l) l"
proof -
  let ?d = "dropWhile py_isspace l"
  have "l = takeWhile py_isspace l @ ?d" by simp
  moreover have "?d = py_strip l @ rev (takeWhile py_isspace (rev ?d))"
  proof -
    have "rev (takeWhile py_isspace (rev ?d) @ dropWhile py_isspace (rev ?d)) = ?d"
      by (simp only: takeWhile_dropWhile_id rev_rev_ident)
    then show ?thesis by (simp only: rev_append py_strip_def)
  qed
  ultimately have "l = takeWhile py_isspace l @ py_strip l @ rev (takeWhile py_isspace (rev ?d))"
    by simp
  then show ?thesis unfolding sublist_def by blast
qed

lemma startswith_strip_sublist: "startswith (py_strip l) x \<Longrightarrow> sublist x l"
  using py_strip_sublist [of l] prefix_imp_sublist [of x "py_strip l"]
  by (auto simp: startswith_def intro: sublist_order.order.trans)

lemma sublist_snoc_append:
  assumes "sublist (x @ [c]) (a @ b)" and "c \<notin> set b"
  shows "sublist (x @ [c]) a"
proof -
  from assms(1) obtain ps ss where eq: "a @ b = (ps @ x @ [c]) @ ss"
    by (auto simp: sublist_def)
  then obtain us where "(a = (ps @ x @ [c]) @ us \<and> us @ b = ss) \<or> (a @ us = ps @ x @ [c] \<and> b = us @ ss)"
    using append_eq_append_conv2 [of a b "ps @ x @ [c]" ss] by blast
  then show ?thesis
  proof
    assume "a = (ps @ x @ [c]) @ us \<and> us @ b = ss"
    then have "a = ps @ (x @ [c]) @ us" by simp
    then show ?thesis unfolding sublist_def by blast
  next
    assume h: "a @ us = ps @ x @ [c] \<and> b = us @ ss"
    show ?thesis
    proof (cases "us = []")
      case True
      with h have "a = ps @ (x @ [c]) @ []" by simp
      then show ?thesis unfolding sublist_def by blast
    next
      case False
      with h have "last us = c"
        by (metis append_assoc last_appendR last_snoc)
      with False have "c \<in> set us" using last_in_set by blast
      with h assms(2) show ?thesis by simp
    qed
  qed
qed

lemma scan_bool_append_no_match:
  "\<forall>l \<in> set A. \<not> startswith (py_strip l) (macro @ ''='') \<Longrightarrow>
   scan_bool macro (A @ B) = scan_bool macro B"
  by (induction A) (simp_all add: Let_def)

lemma py_strip_LF: "py_strip (s @ [LF]) = py_strip s"
proof -
  have sp: "py_isspace LF" by (simp add: py_isspace_def)
  show ?thesis
  proof (cases "\<forall>c \<in> set s. py_isspace c")
    case True
    with sp have "dropWhile py_isspace s = []" "dropWhile py_isspace (s @ [LF]) = []"
      by simp_all
    then show ?thesis by (simp only: py_strip_def)
  next
    case False
    then have "dropWhile py_isspace (s @ [LF]) = dropWhile py_isspace s @ [LF]"
      by (simp add: dropWhile_append)
    with sp show ?thesis by (simp add: py_strip_def)
  qed
qed

lemma py_strip_assignment:
  assumes "\<forall>c \<in> set macro. \<not> py_isspace c"
  shows "py_strip (macro @ ''='' @ val) = macro @ ''='' @ rev (dropWhile py_isspace (rev val))"
proof -
  have eq: "\<not> py_isspace CHR ''=''" by (simp add: py_isspace_def)
  have "dropWhile py_isspace (macro @ ''='' @ val) = macro @ ''='' @ val"
    using assms eq by (cases macro) simp_all
  moreover have "dropWhile py_isspace (rev val @ CHR ''='' # rev macro)
                 = dropWhile py_isspace (rev val) @ CHR ''='' # rev macro"
    using eq by (simp add: dropWhile_append)
  ultimately show ?thesis by (simp add: py_strip_def)
qed

lemma py_replace_absent:
  "old \<noteq> [] \<Longrightarrow> \<not> sublist old s \<Longrightarrow> py_replace old new s = s"
proof (induction s)
  case Nil
  then show ?case by (simp add: py_replace.simps)
next
  case (Cons c s)
  then have "\<not> prefix old (c # s)" "\<not> sublist old s"
    by (auto simp: sublist_Cons_right)
  with Cons show ?case by (subst py_replace.simps) simp
qed

lemma py_replace_prefix:
  "old \<noteq> [] \<Longrightarrow> py_replace old new (old @ s) = new @ py_replace old new s"
  by (subst py_replace.simps) simp

lemma py_replace_char: "py_replace [c] [] s = filter (\<lambda>x. x \<noteq> c) s"
proof (induction s)
  case Nil
  show ?case by (simp add: py_replace.simps)
next
  case (Cons x s)
  then show ?case by (subst py_replace.simps) auto
qed


lemma terminated_no_partial:
  assumes "terminated_file fs filename"
    and "read_lines fs filename = F @ (if p = [] then [] else [p])" and "LF \<notin> set p"
  shows "p = []"
proof (rule ccontr)
  assume p: "p \<noteq> []"
  with assms(2) have "concat (read_lines fs filename) = concat F @ p" by simp
  then have t: "file_text fs filename = concat F @ p"
    by (simp add: read_lines_file_text concat_split_lines)
  with p have "file_text fs filename \<noteq> []" and l: "last (file_text fs filename) = last p" by simp_all
  moreover from assms(1) have "file_text fs filename = [] \<or> last (file_text fs filename) = LF"
    using universal_newlines_last
    by (auto simp: terminated_file_def file_text_def split: option.splits)
  ultimately have "last p = LF" by simp
  with p assms(3) show False using last_in_set by metis
qed

lemma update_config_value_frame:
  assumes "plain_macro macro" and "one_line val" and "terminated_file fs filename"
  shows "read_lines (snd (update_config_value rx macro val filename fs)) filename
         = filter (\<lambda>l. \<not> macro_line rx macro l) (read_lines fs filename) @ [new_line macro val]"
proof -
  obtain F p where sh: "read_lines fs filename = F @ (if p = [] then [] else [p])"
     "LF \<notin> set p"
     "read_lines (snd (update_config_value rx macro val filename fs)) filename
               = filter (\<lambda>l. \<not> macro_line rx macro l) F
                 @ [(if macro_line rx macro p then [] else p) @ new_line macro val]"
    using read_lines_update [OF assms(1,2), of fs filename rx] by blast
  from terminated_no_partial [OF assms(3) sh(1,2)] have "p = []" .
  with sh show ?thesis by simp
qed

lemma update_config_value_other_files:
  "g \<noteq> filename \<Longrightarrow> snd (update_config_value rx macro val filename fs) g = fs g"
  by (simp add: update_config_value_def Let_def split: prod.splits option.splits)

lemma update_config_value_terminated:
  assumes "plain_macro macro"
  shows "terminated_file (snd (update_config_value rx macro val filename fs)) filename"
  by (simp add: update_config_value_plain [OF assms] terminated_file_def terminated_def new_line_def)

lemma macro_line_new_line': "plain_macro macro \<Longrightarrow> macro_line rx macro (new_line macro val)"
  using macro_line_new_line [of macro rx "[]" val] by simp

lemma scan_bool_no_match:
  "\<forall>line \<in> set lines. \<not> startswith (py_strip line) (macro @ ''='') \<Longrightarrow> scan_bool macro lines = []"
  by (induction lines) (simp_all add: Let_def)

lemma scan_choice_no_match:
  "\<forall>line \<in> set lines. \<not> (startswith (py_strip line) macro \<and> endswith (py_strip line) end_macro)
   \<Longrightarrow> scan_choice macro end_macro lines = []"
  by (induction lines) (auto simp add: Let_def)

lemma scan_choicelist_no_match:
  "\<forall>line \<in> set lines. \<not> (startswith (py_strip line) macro \<and> endswith (py_strip line) end_macro)
   \<Longrightarrow> scan_choicelist macro end_macro val lines = val"
  by (induction lines arbitrary: val) (auto simp add: Let_def)

lemma scan_asterisk_no_match:
  "\<forall>line \<in> set lines. startswith (py_strip line) macro
       \<longrightarrow> re_search rx end_macro (py_strip line) = Inr False
   \<Longrightarrow> scan_asterisk rx macro end_macro lines = Inr []"
  by (induction lines) (auto simp add: Let_def)

lemma get_config_value_fs: "snd (get_config_value rx macro filename Type end_macro fs) = fs"
  by (simp add: get_config_value_def Let_def)

lemma get_config_value_bool:
  "get_config_value rx macro filename ''bool'' end_macro fs
   = (Inr (scan_bool macro (read_lines fs filename)), fs)"
  by (simp add: get_config_value_def)

lemma get_config_value_choice:
  "get_config_value rx macro filename ''choice'' end_macro fs
   = (Inr (scan_choice macro end_macro (read_lines fs filename)), fs)"
  by (simp add: get_config_value_def)

lemma match_lines_accepts:
  "re_accepts rx pat \<Longrightarrow> \<exists>b. match_lines rx pat lines found = Inr b"
proof (induction lines arbitrary: found)
  case Nil
  show ?case by simp
next
  case (Cons line lines)
  from Cons.prems have "\<exists>m. re_match rx pat line = Inr m"
    by (cases "rx pat") (auto simp: re_accepts_def re_match_def)
  then obtain m where "re_match rx pat line = Inr m" by blast
  with Cons.IH [OF Cons.prems] show ?case by simp
qed

lemma add_str_to_file_append:
  assumes "re_accepts rx str"
  shows "add_str_to_file rx filename str False Mode_a fs
         = (Inr (), fs(filename \<mapsto> (case fs filename of None \<Rightarrow> [] | Some text \<Rightarrow> text) @ str))"
proof -
  obtain b where "match_lines rx str (read_lines fs filename) False = Inr b"
    using match_lines_accepts [OF assms] by blast
  then show ?thesis by (simp add: add_str_to_file_def)
qed

lemma add_str_to_file_write:
  assumes "re_accepts rx str"
  shows "add_str_to_file rx filename str False Mode_w fs = (Inr (), fs(filename \<mapsto> str))"
proof -
  obtain b where "match_lines rx str (read_lines fs filename) False = Inr b"
    using match_lines_accepts [OF assms] by blast
  then show ?thesis by (simp add: add_str_to_file_def)
qed

lemma add_offsets_zero: "add_offsets ''0x0'' ''0x0'' = Inr ''0x0''"
  by code_simp

lemma flash_loop_nodes:
  assumes diff: "SysConfFile pv proot \<noteq> dtsi"
    and k: "k \<le> 19"
    and names: "\<forall>j < k. part_name pv proot fs j \<noteq> []"
    and stop: "k < 19 \<longrightarrow> part_name pv proot fs k = []"
    and offs: "\<forall>j. j \<le> k \<and> j < 19 \<longrightarrow> (\<exists>offset. part_offset pv proot fs j = Inr offset)"
    and acc: "\<forall>j < k. re_accepts rx (part_node pv proot fs j)"
  shows "i \<le> k \<Longrightarrow> fs' (SysConfFile pv proot) = fs (SysConfFile pv proot) \<Longrightarrow>
         fs' dtsi = Some old \<Longrightarrow>
         (i < 19 \<longrightarrow> add_offsets po ps = part_offset pv proot fs i) \<Longrightarrow>
         flash_loop pv rx proot dtsi [i..<19] po ps fs'
         = (Inr (), fs'(dtsi \<mapsto> old @ concat (map (part_node pv proot fs) [i..<k])))"
proof (induction "19 - i" arbitrary: i fs' old po ps)
  case 0
  with k have "i = 19" "k = 19" by simp_all
  moreover have "fs'(dtsi \<mapsto> old) = fs'" using "0.prems"(3) by (rule fun_upd_idem)
  ultimately show ?case by simp
next
  case (Suc n)
  then have i: "i < 19" by simp
  then have upt: "[i..<19] = i # [Suc i..<19]" by (simp add: upt_conv_Cons)
  from offs Suc.prems(1) i obtain offset where off: "part_offset pv proot fs i = Inr offset"
    by blast
  with Suc.prems(4) i have ao: "add_offsets po ps = Inr offset" by simp
  have rl: "read_lines fs' (SysConfFile pv proot) = read_lines fs (SysConfFile pv proot)"
    using Suc.prems(2) by (simp add: read_lines_def)
  have nm: "get_config_value rx (FlashConfs_Prefix pv @ dec_nat i @ FlashConfs_Name pv)
              (SysConfFile pv proot) ''bool'' ''=y'' fs' = (Inr (part_name pv proot fs i), fs')"
    by (simp add: get_config_value_bool part_name_def rl)
  have sz: "get_config_value rx (FlashConfs_Prefix pv @ dec_nat i @ FlashConfs_Size pv)
              (SysConfFile pv proot) ''bool'' ''=y'' fs' = (Inr (part_size pv proot fs i), fs')"
    by (simp add: get_config_value_bool part_size_def rl)
  show ?case
  proof (cases "i < k")
    case False
    with Suc.prems(1) have ik: "i = k" by simp
    with stop i have "part_name pv proot fs i = []" by simp
    then have "flash_loop pv rx proot dtsi [i..<19] po ps fs' = (Inr (), fs')"
      by (simp only: upt flash_loop.simps ao nm sz sum.case prod.case) simp
    moreover have "fs'(dtsi \<mapsto> old) = fs'" using Suc.prems(3) by (rule fun_upd_idem)
    ultimately show ?thesis using ik by simp
  next
    case True
    with names have ne: "part_name pv proot fs i \<noteq> []" by simp
    have node: "FlashPartNode pv i (part_name pv proot fs i) offset (part_size pv proot fs i)
                = part_node pv proot fs i"
      by (simp add: part_node_def off)
    from acc True have a: "re_accepts rx (part_node pv proot fs i)" by simp
    let ?fs = "fs'(dtsi \<mapsto> old @ part_node pv proot fs i)"
    have w: "add_str_to_file rx dtsi (part_node pv proot fs i) False Mode_a fs' = (Inr (), ?fs)"
      by (simp add: add_str_to_file_append [OF a] Suc.prems(3))
    have step: "flash_loop pv rx proot dtsi [i..<19] po ps fs'
                = flash_loop pv rx proot dtsi [Suc i..<19] offset (part_size pv proot fs i) ?fs"
      using ne by (simp only: upt flash_loop.simps ao nm sz sum.case prod.case node w) simp
    have next_off: "Suc i < 19 \<longrightarrow>
        add_offsets offset (part_size pv proot fs i) = part_offset pv proot fs (Suc i)"
      by (simp add: off)
    have "flash_loop pv rx proot dtsi [Suc i..<19] offset (part_size pv proot fs i) ?fs
          = (Inr (), ?fs(dtsi \<mapsto> (old @ part_node pv proot fs i)
                         @ concat (map (part_node pv proot fs) [Suc i..<k])))"
    proof (rule Suc.hyps(1))
      show "n = 19 - Suc i" using Suc.hyps(2) by simp
      show "Suc i \<le> k" using True by simp
      show "?fs (SysConfFile pv proot) = fs (SysConfFile pv proot)"
        using diff Suc.prems(2) by simp
      show "?fs dtsi = Some (old @ part_node pv proot fs i)" by simp
      show "Suc i < 19 \<longrightarrow>
        add_offsets offset (part_size pv proot fs i) = part_offset pv proot fs (Suc i)"
        by (rule next_off)
    qed
    moreover have "[i..<k] = i # [Suc i..<k]" using True by (simp add: upt_conv_Cons)
    ultimately show ?thesis by (simp add: step)
  qed
qed


lemma get_config_value_asterisk:
  "get_config_value rx macro filename ''asterisk'' end_macro fs
   = (scan_asterisk rx macro end_macro (read_lines fs filename), fs)"
  by (simp add: get_config_value_def)

lemma part_offset_defined:
  "part_offset pv proot fs i = Inr offset \<Longrightarrow> j \<le> i \<Longrightarrow> \<exists>offset'. part_offset pv proot fs j = Inr offset'"
proof (induction i arbitrary: offset)
  case 0
  then show ?case by simp
next
  case (Suc i)
  show ?case
  proof (cases "j = Suc i")
    case True
    with Suc.prems show ?thesis by blast
  next
    case False
    with Suc.prems have "j \<le> i" by simp
    moreover from Suc.prems(1) obtain o' where "part_offset pv proot fs i = Inr o'"
      by (auto split: sum.splits)
    ultimately show ?thesis using Suc.IH by blast
  qed
qed

section \<open>Lookup modes\<close>

text \<open>
  C10. For every macro, file content and \<open>Type\<close> string that is none of \<open>bool\<close>,
  \<open>choice\<close>, \<open>choicelist\<close> and \<open>asterisk\<close>, \<open>get_config_value\<close> returns the empty string and
  raises nothing, whatever the lines of the file are: such a mode matches no line.
\<close>

theorem get_config_value_unknown_mode:
  assumes "Type \<notin> {''bool'', ''choice'', ''choicelist'', ''asterisk''}"
  shows "get_config_value rx macro filename Type end_macro fs = (Inr [], fs)"
  using assms by (simp add: get_config_value_def)

theorem get_config_value_unknown_mode_witness:
  "''string'' \<notin> {''bool'', ''choice'', ''choicelist'', ''asterisk''} \<and>
   get_config_value (\<lambda>p. None) ''FOO'' ''config'' ''string'' ''=y''
     [''config'' \<mapsto> ''FOO=1'' @ [LF] @ ''FOO_X=y'' @ [LF]]
   = (Inr [], [''config'' \<mapsto> ''FOO=1'' @ [LF] @ ''FOO_X=y'' @ [LF]])"
  using get_config_value_unknown_mode
          [of "''string''" "\<lambda>p. None" "''FOO''" "''config''" "''=y''"
              "[''config'' \<mapsto> ''FOO=1'' @ [LF] @ ''FOO_X=y'' @ [LF]]"]
  by simp

section \<open>Lookups that find nothing\<close>

text \<open>
  C7. For every macro, lookup mode and path, \<open>get_config_value\<close> returns the empty string,
  raises nothing and leaves the file system as it was (an absent file stays absent),
  whenever the file is absent, empty, or has no line that matches the macro in the mode.
\<close>

theorem get_config_value_nothing_found:
  assumes "fs filename = None \<or> fs filename = Some []
           \<or> (\<forall>line \<in> set (read_lines fs filename).
                 no_match rx macro Type end_macro (py_strip line))"
  shows "get_config_value rx macro filename Type end_macro fs = (Inr [], fs)"
proof -
  have empty: "get_config_value rx macro filename Type end_macro fs = (Inr [], fs)"
    if "read_lines fs filename = []"
    using that by (simp add: get_config_value_def)
  from assms show ?thesis
  proof (elim disjE)
    assume "fs filename = None"
    then show ?thesis by (intro empty) (simp add: read_lines_def)
  next
    assume "fs filename = Some []"
    then show ?thesis by (intro empty) (simp add: read_lines_def)
  next
    assume 3: "\<forall>line \<in> set (read_lines fs filename).
                 no_match rx macro Type end_macro (py_strip line)"
    show ?thesis
    proof (cases "Type = ''bool''")
      case True
      with 3 show ?thesis
        by (simp add: get_config_value_def no_match_def scan_bool_no_match)
    next
      case nb: False
      show ?thesis
      proof (cases "Type = ''choice'' \<or> Type = ''choicelist''")
        case True
        with 3 nb have
          "\<forall>line \<in> set (read_lines fs filename).
             \<not> (startswith (py_strip line) macro \<and> endswith (py_strip line) end_macro)"
          by (simp add: no_match_def)
        with True show ?thesis
          by (auto simp add: get_config_value_def scan_choice_no_match scan_choicelist_no_match)
      next
        case nc: False
        show ?thesis
        proof (cases "Type = ''asterisk''")
          case True
          with 3 have
            "\<forall>line \<in> set (read_lines fs filename). startswith (py_strip line) macro
                \<longrightarrow> re_search rx end_macro (py_strip line) = Inr False"
            by (simp add: no_match_def)
          with True show ?thesis
            by (simp add: get_config_value_def scan_asterisk_no_match)
        next
          case False
          with nb nc show ?thesis by (simp add: get_config_value_def)
        qed
      qed
    qed
  qed
qed

theorem get_config_value_nothing_found_witness:
  "get_config_value re_none ''FOO'' ''config'' ''bool'' ''=y'' [''config'' \<mapsto> []]
     = (Inr [], [''config'' \<mapsto> []])
   \<and> get_config_value re_none ''FOO'' ''config'' ''asterisk'' ''=y'' no_files = (Inr [], no_files)
   \<and> no_files ''config'' = None
   \<and> get_config_value re_none ''FOO'' ''config'' ''choice'' ''=y''
         [''config'' \<mapsto> ''FOO_A=n'' @ [LF] @ ''BAR=y'' @ [LF]]
     = (Inr [], [''config'' \<mapsto> ''FOO_A=n'' @ [LF] @ ''BAR=y'' @ [LF]])"
proof -
  have "get_config_value re_none ''FOO'' ''config'' ''bool'' ''=y'' [''config'' \<mapsto> []]
     = (Inr [], [''config'' \<mapsto> []])"
    by (rule get_config_value_nothing_found) simp
  moreover have "get_config_value re_none ''FOO'' ''config'' ''asterisk'' ''=y'' no_files
     = (Inr [], no_files)"
    by (rule get_config_value_nothing_found) (simp add: no_files_def)
  moreover have "get_config_value re_none ''FOO'' ''config'' ''choice'' ''=y''
         [''config'' \<mapsto> ''FOO_A=n'' @ [LF] @ ''BAR=y'' @ [LF]]
     = (Inr [], [''config'' \<mapsto> ''FOO_A=n'' @ [LF] @ ''BAR=y'' @ [LF]])"
  proof (rule get_config_value_nothing_found)
    have "\<forall>line \<in> set (read_lines [''config'' \<mapsto> ''FOO_A=n'' @ [LF] @ ''BAR=y'' @ [LF]] ''config'').
            no_match re_none ''FOO'' ''choice'' ''=y'' (py_strip line)"
      by code_simp
    then show "[''config'' \<mapsto> ''FOO_A=n'' @ [LF] @ ''BAR=y'' @ [LF]] ''config'' = None
       \<or> [''config'' \<mapsto> ''FOO_A=n'' @ [LF] @ ''BAR=y'' @ [LF]] ''config'' = Some []
       \<or> (\<forall>line \<in> set (read_lines [''config'' \<mapsto> ''FOO_A=n'' @ [LF] @ ''BAR=y'' @ [LF]] ''config'').
            no_match re_none ''FOO'' ''choice'' ''=y'' (py_strip line))"
      by blast
  qed
  ultimately show ?thesis by (simp add: no_files_def)
qed

section \<open>Updates\<close>

text \<open>
  C3 (the code on a file whose last line has no line break). The file holds \<open>X=1\<close>
  without a line break at the end and \<open>Y\<close> is set to \<open>2\<close>: the one line of the file
  becomes \<open>X=1Y=2\<close>. The line \<open>X=1\<close> is not kept as it was and \<open>Y=2\<close> is not a line of
  its own; a lookup of \<open>Y\<close> then finds nothing and a lookup of \<open>X\<close> finds \<open>1Y=2\<close>.
\<close>

theorem update_config_value_unterminated:
  "read_lines [''config'' \<mapsto> ''X=1''] ''config'' = [''X=1'']
   \<and> fst (update_config_value re_none ''Y'' ''2'' ''config'' [''config'' \<mapsto> ''X=1'']) = Inr ()
   \<and> read_lines (snd (update_config_value re_none ''Y'' ''2'' ''config'' [''config'' \<mapsto> ''X=1'']))
        ''config'' = [''X=1Y=2'' @ [LF]]
   \<and> fst (get_config_value re_none ''Y'' ''config'' ''bool'' ''=y''
        (snd (update_config_value re_none ''Y'' ''2'' ''config'' [''config'' \<mapsto> ''X=1''])))
      = Inr []
   \<and> fst (get_config_value re_none ''X'' ''config'' ''bool'' ''=y''
        (snd (update_config_value re_none ''Y'' ''2'' ''config'' [''config'' \<mapsto> ''X=1''])))
      = Inr ''1Y=2''"
  by code_simp

text \<open>After two calls with the same macro name and the same value of one line, whatever
  the starting file was, the file has one line of the macro: the line written.\<close>

lemma two_updates_one_line:
  assumes "plain_macro macro" and "one_line val"
  shows "fst (update_config_value rx macro val filename fs) = Inr ()
     \<and> fst (update_config_value rx macro val filename
               (snd (update_config_value rx macro val filename fs))) = Inr ()
     \<and> filter (macro_line rx macro)
         (read_lines (snd (update_config_value rx macro val filename
                             (snd (update_config_value rx macro val filename fs)))) filename)
       = [new_line macro val]"
proof -
  let ?fs1 = "snd (update_config_value rx macro val filename fs)"
  have t: "terminated_file ?fs1 filename"
    by (rule update_config_value_terminated [OF assms(1)])
  have "filter (macro_line rx macro)
          (read_lines (snd (update_config_value rx macro val filename ?fs1)) filename)
        = [new_line macro val]"
    by (simp add: update_config_value_frame [OF assms t] macro_line_new_line' [OF assms(1)])
  then show ?thesis by (simp add: update_config_value_plain [OF assms(1)])
qed

text \<open>When the starting file is absent, empty or terminated, the second call leaves
  the file system of the first.\<close>

lemma update_config_value_idempotent:
  assumes "plain_macro macro" and "one_line val" and "terminated_file fs filename"
  shows "snd (update_config_value rx macro val filename
               (snd (update_config_value rx macro val filename fs)))
         = snd (update_config_value rx macro val filename fs)"
proof -
  let ?fs1 = "snd (update_config_value rx macro val filename fs)"
  have "concat (filter (\<lambda>l. \<not> macro_line rx macro l) (read_lines ?fs1 filename))
        = concat (filter (\<lambda>l. \<not> macro_line rx macro l) (read_lines fs filename))"
    by (simp add: update_config_value_frame [OF assms] macro_line_new_line' [OF assms(1)])
  then show ?thesis
    by (simp add: update_config_value_plain [OF assms(1)])
qed

text \<open>
  C5 (amended). For every macro name, every value of one line and every starting file
  that is absent, empty or terminated, two calls of \<open>update_config_value\<close> with the same
  macro and value both return; the file then has exactly one line of the macro, the line
  written (\<open>macro=value\<close> or \<open># macro is not set\<close>), and the second call changes nothing:
  the file system after it is the file system after the first call.
\<close>

theorem update_config_value_twice:
  assumes "plain_macro macro" and "one_line val" and "terminated_file fs filename"
  shows "fst (update_config_value rx macro val filename fs) = Inr ()
     \<and> fst (update_config_value rx macro val filename
               (snd (update_config_value rx macro val filename fs))) = Inr ()
     \<and> filter (macro_line rx macro)
         (read_lines (snd (update_config_value rx macro val filename
                             (snd (update_config_value rx macro val filename fs)))) filename)
       = [new_line macro val]
     \<and> snd (update_config_value rx macro val filename
               (snd (update_config_value rx macro val filename fs)))
       = snd (update_config_value rx macro val filename fs)"
  using two_updates_one_line [OF assms(1,2), of rx filename fs]
    update_config_value_idempotent [OF assms, of rx]
  by simp

theorem update_config_value_twice_witness:
  "plain_macro ''FOO'' \<and> one_line ''1''
   \<and> terminated_file [''config'' \<mapsto> ''FOO=0'' @ [LF] @ ''X=1'' @ [LF]] ''config''
   \<and> filter (macro_line re_none ''FOO'')
        (read_lines (snd (update_config_value re_none ''FOO'' ''1'' ''config''
                            (snd (update_config_value re_none ''FOO'' ''1'' ''config''
                                    [''config'' \<mapsto> ''FOO=0'' @ [LF] @ ''X=1'' @ [LF]]))))
           ''config'')
      = [''FOO=1'' @ [LF]]
   \<and> snd (update_config_value re_none ''FOO'' ''1'' ''config''
            (snd (update_config_value re_none ''FOO'' ''1'' ''config''
                    [''config'' \<mapsto> ''FOO=0'' @ [LF] @ ''X=1'' @ [LF]])))
      = snd (update_config_value re_none ''FOO'' ''1'' ''config''
               [''config'' \<mapsto> ''FOO=0'' @ [LF] @ ''X=1'' @ [LF]])"
proof -
  have h: "plain_macro ''FOO''" "one_line ''1''"
    "terminated_file [''config'' \<mapsto> ''FOO=0'' @ [LF] @ ''X=1'' @ [LF]] ''config''"
    by (simp_all add: plain_macro_def one_line_def re_special_def py_isspace_def
        terminated_file_def terminated_def)
  note t = update_config_value_twice [OF h, of re_none]
  have nl: "new_line ''FOO'' ''1'' = ''FOO=1'' @ [LF]" by (simp add: new_line_def)
  have a: "filter (macro_line re_none ''FOO'')
        (read_lines (snd (update_config_value re_none ''FOO'' ''1'' ''config''
                            (snd (update_config_value re_none ''FOO'' ''1'' ''config''
                                    [''config'' \<mapsto> ''FOO=0'' @ [LF] @ ''X=1'' @ [LF]]))))
           ''config'')
      = [''FOO=1'' @ [LF]]"
    using t unfolding nl by (elim conjE)
  have b: "snd (update_config_value re_none ''FOO'' ''1'' ''config''
            (snd (update_config_value re_none ''FOO'' ''1'' ''config''
                    [''config'' \<mapsto> ''FOO=0'' @ [LF] @ ''X=1'' @ [LF]])))
      = snd (update_config_value re_none ''FOO'' ''1'' ''config''
               [''config'' \<mapsto> ''FOO=0'' @ [LF] @ ''X=1'' @ [LF]])"
    using t by (elim conjE)
  from h a b show ?thesis by (intro conjI)
qed

text \<open>A value of two lines, \<open>a\<close> and \<open>FOO=b\<close>, is written as it is: after two calls the
  file has two lines of the macro \<open>FOO\<close>.\<close>

theorem update_config_value_twice_counterexample:
  "read_lines (snd (update_config_value re_none ''FOO'' (''a'' @ [LF] @ ''FOO=b'') ''config''
                      (snd (update_config_value re_none ''FOO'' (''a'' @ [LF] @ ''FOO=b'')
                              ''config'' no_files)))) ''config''
     = [''FOO=a'' @ [LF], ''FOO=b'' @ [LF]]
   \<and> length (filter (macro_line re_none ''FOO'')
        (read_lines (snd (update_config_value re_none ''FOO'' (''a'' @ [LF] @ ''FOO=b'') ''config''
                            (snd (update_config_value re_none ''FOO'' (''a'' @ [LF] @ ''FOO=b'')
                                    ''config'' no_files)))) ''config'')) = 2"
  by code_simp

lemma update_config_value_no_assignment:
  assumes pm: "plain_macro macro" and ol: "one_line val"
    and eq: "CHR ''='' \<notin> set (new_line macro val)"
  shows "\<forall>l \<in> set (read_lines (snd (update_config_value rx macro val filename fs)) filename).
           \<not> sublist (macro @ ''='') l"
proof -
  obtain F p where sh:
     "read_lines (snd (update_config_value rx macro val filename fs)) filename
               = filter (\<lambda>l. \<not> macro_line rx macro l) F
                 @ [(if macro_line rx macro p then [] else p) @ new_line macro val]"
    using read_lines_update [OF pm ol, of fs filename rx] by blast
  let ?p = "if macro_line rx macro p then [] else p"
  have p: "\<not> sublist (macro @ ''='') ?p"
  proof (cases "macro_line rx macro p")
    case True
    then show ?thesis by simp
  next
    case False
    then show ?thesis by (simp add: macro_line_plain [OF pm])
  qed
  have last: "\<not> sublist (macro @ ''='') (?p @ new_line macro val)"
  proof
    assume "sublist (macro @ ''='') (?p @ new_line macro val)"
    then have "sublist (macro @ ''='') ?p"
      using eq by (rule sublist_snoc_append)
    with p show False by contradiction
  qed
  show ?thesis
  proof
    fix l
    assume "l \<in> set (read_lines (snd (update_config_value rx macro val filename fs)) filename)"
    then have "(l \<in> set F \<and> \<not> macro_line rx macro l) \<or> l = ?p @ new_line macro val"
      unfolding sh by auto
    then show "\<not> sublist (macro @ ''='') l"
    proof
      assume "l \<in> set F \<and> \<not> macro_line rx macro l"
      then show ?thesis by (simp add: macro_line_plain [OF pm])
    next
      assume "l = ?p @ new_line macro val"
      with last show ?thesis by simp
    qed
  qed
qed

text \<open>After \<open>disable\<close> for a macro name, whatever the file was, the lookup of the macro finds
  nothing and no line contains \<open>macro=\<close>.\<close>

lemma disable_any_file:
  assumes "plain_macro macro"
  shows "fst (get_config_value rx macro filename ''bool'' end_macro
              (snd (update_config_value rx macro ''disable'' filename fs))) = Inr []"
    and "\<forall>l \<in> set (read_lines (snd (update_config_value rx macro ''disable'' filename fs)) filename).
           \<not> sublist (macro @ ''='') l"
proof -
  let ?fs1 = "snd (update_config_value rx macro ''disable'' filename fs)"
  have ol: "one_line ''disable''" by (simp add: one_line_def)
  have eq: "CHR ''='' \<notin> set (new_line macro ''disable'')"
    using plain_macro_chars(3) [OF assms] by (simp add: new_line_def)
  show no: "\<forall>l \<in> set (read_lines ?fs1 filename). \<not> sublist (macro @ ''='') l"
    by (rule update_config_value_no_assignment [OF assms ol eq])
  then have "\<forall>l \<in> set (read_lines ?fs1 filename). \<not> startswith (py_strip l) (macro @ ''='')"
    using startswith_strip_sublist by blast
  then show "fst (get_config_value rx macro filename ''bool'' end_macro ?fs1) = Inr []"
    by (simp add: get_config_value_bool scan_bool_no_match)
qed

text \<open>
  C6 (amended). For every macro name and every file that is absent, empty or terminated,
  \<open>update_config_value\<close> with \<open>disable\<close> returns; the lookup of the macro in mode \<open>bool\<close>
  then returns the empty string; the lines of the file are the lines kept, in their
  order, and then the line \<open># macro is not set\<close>, which is a whole line of the file; and
  no line contains \<open>macro=\<close>.
\<close>

theorem update_config_value_disable:
  assumes "plain_macro macro" and "terminated_file fs filename"
  shows "fst (update_config_value rx macro ''disable'' filename fs) = Inr ()
     \<and> fst (get_config_value rx macro filename ''bool'' end_macro
              (snd (update_config_value rx macro ''disable'' filename fs))) = Inr []
     \<and> read_lines (snd (update_config_value rx macro ''disable'' filename fs)) filename
       = filter (\<lambda>l. \<not> macro_line rx macro l) (read_lines fs filename)
         @ [''# '' @ macro @ '' is not set'' @ [LF]]
     \<and> ''# '' @ macro @ '' is not set'' @ [LF]
         \<in> set (read_lines (snd (update_config_value rx macro ''disable'' filename fs)) filename)
     \<and> (\<forall>l \<in> set (read_lines (snd (update_config_value rx macro ''disable'' filename fs)) filename).
           \<not> sublist (macro @ ''='') l)"
proof -
  let ?fs1 = "snd (update_config_value rx macro ''disable'' filename fs)"
  have ol: "one_line ''disable''" by (simp add: one_line_def)
  have nl: "new_line macro ''disable'' = ''# '' @ macro @ '' is not set'' @ [LF]"
    by (simp add: new_line_def)
  have lines: "read_lines ?fs1 filename
               = filter (\<lambda>l. \<not> macro_line rx macro l) (read_lines fs filename)
                 @ [''# '' @ macro @ '' is not set'' @ [LF]]"
    using update_config_value_frame [OF assms(1) ol assms(2), of rx] by (simp only: nl)
  then have mem: "''# '' @ macro @ '' is not set'' @ [LF] \<in> set (read_lines ?fs1 filename)"
    by simp
  have ret: "fst (update_config_value rx macro ''disable'' filename fs) = Inr ()"
    by (simp add: update_config_value_plain [OF assms(1)])
  have g: "fst (get_config_value rx macro filename ''bool'' end_macro ?fs1) = Inr []"
    by (rule disable_any_file(1) [OF assms(1)])
  have no: "\<forall>l \<in> set (read_lines ?fs1 filename). \<not> sublist (macro @ ''='') l"
    by (rule disable_any_file(2) [OF assms(1)])
  from ret g lines mem no show ?thesis by (intro conjI)
qed

theorem update_config_value_disable_witness:
  "plain_macro ''FOO'' \<and> terminated_file [''config'' \<mapsto> ''FOO=1'' @ [LF]] ''config''
   \<and> fst (get_config_value re_none ''FOO'' ''config'' ''bool'' ''=y''
            (snd (update_config_value re_none ''FOO'' ''disable'' ''config''
                    [''config'' \<mapsto> ''FOO=1'' @ [LF]]))) = Inr []
   \<and> ''# FOO is not set'' @ [LF]
       \<in> set (read_lines (snd (update_config_value re_none ''FOO'' ''disable'' ''config''
                                 [''config'' \<mapsto> ''FOO=1'' @ [LF]])) ''config'')"
proof -
  have h: "plain_macro ''FOO''" "terminated_file [''config'' \<mapsto> ''FOO=1'' @ [LF]] ''config''"
    by (simp_all add: plain_macro_def re_special_def py_isspace_def
        terminated_file_def terminated_def)
  note t = update_config_value_disable [OF h, of re_none "''=y''"]
  have a: "fst (get_config_value re_none ''FOO'' ''config'' ''bool'' ''=y''
            (snd (update_config_value re_none ''FOO'' ''disable'' ''config''
                    [''config'' \<mapsto> ''FOO=1'' @ [LF]]))) = Inr []"
    using t by (elim conjE)
  have b: "''# '' @ ''FOO'' @ '' is not set'' @ [LF]
       \<in> set (read_lines (snd (update_config_value re_none ''FOO'' ''disable'' ''config''
                                 [''config'' \<mapsto> ''FOO=1'' @ [LF]])) ''config'')"
    using t by (elim conjE)
  from h a b show ?thesis by simp
qed

text \<open>The macro \<open>A+\<close> is used as a pattern: \<open>A+=\<close> asks for one or more \<open>A\<close> before \<open>=\<close> and
  does not find the line \<open>A+=0\<close>. The line is kept, and the lookup after \<open>disable\<close> returns
  \<open>0\<close>.\<close>

theorem update_config_value_disable_counterexample:
  "fst (update_config_value re_example ''A+'' ''disable'' ''config''
          [''config'' \<mapsto> ''A+=0'' @ [LF]]) = Inr ()
   \<and> read_lines (snd (update_config_value re_example ''A+'' ''disable'' ''config''
                        [''config'' \<mapsto> ''A+=0'' @ [LF]])) ''config''
     = [''A+=0'' @ [LF], ''# A+ is not set'' @ [LF]]
   \<and> fst (get_config_value re_example ''A+'' ''config'' ''bool'' ''=y''
            (snd (update_config_value re_example ''A+'' ''disable'' ''config''
                    [''config'' \<mapsto> ''A+=0'' @ [LF]]))) = Inr ''0''"
  by code_simp

text \<open>
  C2 (amended). For every macro name, every value of one line other than \<open>disable\<close> and
  every file that is absent, empty or terminated, \<open>update_config_value\<close> returns and the
  lookup of the macro in mode \<open>bool\<close> then returns what it extracts from the stripped
  line \<open>macro=value\<close>: every \<open>macro=\<close> and every double quote is removed from it, also
  inside the value, and white space at the end of the value is lost. For a value that
  does not end with white space and does not contain \<open>macro=\<close>, the result is the value
  without any of its double quotes.
\<close>

theorem update_then_get:
  assumes pm: "plain_macro macro" and ol: "one_line val" and nd: "val \<noteq> ''disable''"
    and tf: "terminated_file fs filename"
  shows "fst (update_config_value rx macro val filename fs) = Inr ()
     \<and> fst (get_config_value rx macro filename ''bool'' end_macro
              (snd (update_config_value rx macro val filename fs)))
       = Inr (py_replace [DQUOTE] [] (py_replace (macro @ ''='') [] (py_strip (macro @ ''='' @ val))))
     \<and> ((val = [] \<or> \<not> py_isspace (last val)) \<and> \<not> sublist (macro @ ''='') val \<longrightarrow>
          fst (get_config_value rx macro filename ''bool'' end_macro
                 (snd (update_config_value rx macro val filename fs)))
          = Inr (filter (\<lambda>c. c \<noteq> DQUOTE) val))"
proof -
  let ?fs1 = "snd (update_config_value rx macro val filename fs)"
  let ?keep = "\<lambda>l. \<not> macro_line rx macro l"
  have nsp: "\<forall>c \<in> set macro. \<not> py_isspace c" by (rule plain_macro_chars(4) [OF pm])
  have lines: "read_lines ?fs1 filename = filter ?keep (read_lines fs filename) @ [new_line macro val]"
    by (rule update_config_value_frame [OF pm ol tf])
  have "\<forall>l \<in> set (filter ?keep (read_lines fs filename)). \<not> sublist (macro @ ''='') l"
    by (simp add: macro_line_plain [OF pm])
  then have kept: "\<forall>l \<in> set (filter ?keep (read_lines fs filename)).
                     \<not> startswith (py_strip l) (macro @ ''='')"
    using startswith_strip_sublist by blast
  have strip: "py_strip (new_line macro val) = py_strip (macro @ ''='' @ val)"
    using nd py_strip_LF [of "macro @ ''='' @ val"] by (simp add: new_line_def)
  have starts: "startswith (py_strip (macro @ ''='' @ val)) (macro @ ''='')"
    unfolding py_strip_assignment [OF nsp] startswith_def by simp
  have "scan_bool macro (read_lines ?fs1 filename) = scan_bool macro [new_line macro val]"
    by (simp only: lines scan_bool_append_no_match [OF kept])
  also have "\<dots> = py_replace [DQUOTE] [] (py_replace (macro @ ''='') [] (py_strip (macro @ ''='' @ val)))"
    using starts by (simp add: strip Let_def)
  finally have get: "fst (get_config_value rx macro filename ''bool'' end_macro ?fs1)
       = Inr (py_replace [DQUOTE] [] (py_replace (macro @ ''='') [] (py_strip (macro @ ''='' @ val))))"
    by (simp add: get_config_value_bool)
  have nice: "py_replace [DQUOTE] [] (py_replace (macro @ ''='') [] (py_strip (macro @ ''='' @ val)))
              = filter (\<lambda>c. c \<noteq> DQUOTE) val"
    if v: "val = [] \<or> \<not> py_isspace (last val)" and ns: "\<not> sublist (macro @ ''='') val"
  proof -
    from v have "dropWhile py_isspace (rev val) = rev val"
      by (cases val rule: rev_cases) simp_all
    then have "py_strip (macro @ ''='' @ val) = (macro @ ''='') @ val"
      unfolding py_strip_assignment [OF nsp] by simp
    then have "py_replace (macro @ ''='') [] (py_strip (macro @ ''='' @ val))
               = py_replace (macro @ ''='') [] val"
      using py_replace_prefix [of "macro @ ''=''" "[]" val] by simp
    also have "\<dots> = val" using ns by (intro py_replace_absent) simp_all
    finally show ?thesis by (simp only: py_replace_char)
  qed
  from get nice show ?thesis
    by (simp add: update_config_value_plain [OF pm])
qed

theorem update_then_get_witness:
  "plain_macro ''FOO'' \<and> one_line (DQUOTE # ''a b'' @ [DQUOTE])
   \<and> DQUOTE # ''a b'' @ [DQUOTE] \<noteq> ''disable'' \<and> terminated_file no_files ''config''
   \<and> fst (get_config_value re_none ''FOO'' ''config'' ''bool'' ''=y''
            (snd (update_config_value re_none ''FOO'' (DQUOTE # ''a b'' @ [DQUOTE]) ''config''
                    no_files))) = Inr ''a b''"
proof -
  have h: "plain_macro ''FOO''" "one_line (DQUOTE # ''a b'' @ [DQUOTE])"
    "DQUOTE # ''a b'' @ [DQUOTE] \<noteq> ''disable''" "terminated_file no_files ''config''"
    by (simp_all add: plain_macro_def one_line_def re_special_def py_isspace_def
        terminated_file_def no_files_def)
  have "py_replace [DQUOTE] []
          (py_replace (''FOO'' @ ''='') [] (py_strip (''FOO'' @ ''='' @ DQUOTE # ''a b'' @ [DQUOTE])))
        = ''a b''"
    by code_simp
  with update_then_get [OF h, of re_none "''=y''"] h show ?thesis
    by simp
qed

text \<open>The value \<open>x"y\<close> has no surrounding double quotes, and the lookup after the update
  returns \<open>xy\<close>.\<close>

theorem update_then_get_counterexample:
  "''x'' @ [DQUOTE] @ ''y'' \<noteq> ''disable''
   \<and> strip_surrounding_quotes (''x'' @ [DQUOTE] @ ''y'') = ''x'' @ [DQUOTE] @ ''y''
   \<and> fst (get_config_value re_none ''FOO'' ''config'' ''bool'' ''=y''
            (snd (update_config_value re_none ''FOO'' (''x'' @ [DQUOTE] @ ''y'') ''config''
                    no_files))) = Inr ''xy''
   \<and> ''xy'' \<noteq> strip_surrounding_quotes (''x'' @ [DQUOTE] @ ''y'')"
  by code_simp

section \<open>The hardware flow\<close>

text \<open>
  C1 (amended). \<open>is_hwflow_sdt\<close> raises nothing and leaves the files as they are. It
  returns \<open>sdt\<close> when the stored \<open>HDF_EXT\<close> equals \<open>dts\<close> and returns every other stored
  value as it is: \<open>sdt\<close> if and only if \<open>dts\<close> or \<open>sdt\<close> is stored, \<open>xsa\<close> if and only if
  \<open>xsa\<close> is stored, and the empty string when the macro or the file is absent.
\<close>

theorem is_hwflow_sdt_result:
  "\<exists>stored.
     get_config_value rx ''HDF_EXT'' (MetaDataFile pv proot) ''bool'' ''=y'' fs = (Inr stored, fs)
     \<and> is_hwflow_sdt pv rx proot fs = (Inr (if stored = ''dts'' then ''sdt'' else stored), fs)
     \<and> (fst (is_hwflow_sdt pv rx proot fs) = Inr ''sdt'' \<longleftrightarrow> stored = ''dts'' \<or> stored = ''sdt'')
     \<and> (fst (is_hwflow_sdt pv rx proot fs) = Inr ''xsa'' \<longleftrightarrow> stored = ''xsa'')
     \<and> (fst (is_hwflow_sdt pv rx proot fs) = Inr [] \<longleftrightarrow> stored = [])"
  by (simp add: is_hwflow_sdt_def io_bind_def io_return_def get_config_value_bool)

theorem is_hwflow_sdt_result_witness:
  "is_hwflow_sdt example_vars re_none ''proj''
     [''proj/.petalinux/metadata'' \<mapsto> ''HDF_EXT='' @ [DQUOTE] @ ''dts'' @ [DQUOTE, LF]]
   = (Inr ''sdt'', [''proj/.petalinux/metadata'' \<mapsto> ''HDF_EXT='' @ [DQUOTE] @ ''dts'' @ [DQUOTE, LF]])"
proof -
  have "fst (get_config_value re_none ''HDF_EXT'' (MetaDataFile example_vars ''proj'') ''bool'' ''=y''
          [''proj/.petalinux/metadata'' \<mapsto> ''HDF_EXT='' @ [DQUOTE] @ ''dts'' @ [DQUOTE, LF]])
        = Inr ''dts''"
    by code_simp
  with is_hwflow_sdt_result [of re_none example_vars "''proj''"
      "[''proj/.petalinux/metadata'' \<mapsto> ''HDF_EXT='' @ [DQUOTE] @ ''dts'' @ [DQUOTE, LF]]"]
  show ?thesis by auto
qed

text \<open>With no metadata file the stored value is empty, and the result is the empty
  string, not \<open>xsa\<close>.\<close>

theorem is_hwflow_sdt_counterexample:
  "fst (get_config_value re_none ''HDF_EXT'' (MetaDataFile example_vars ''proj'') ''bool'' ''=y''
          no_files) = Inr []
   \<and> fst (is_hwflow_sdt example_vars re_none ''proj'' no_files) = Inr []
   \<and> fst (is_hwflow_sdt example_vars re_none ''proj'' no_files) \<noteq> Inr ''xsa''"
  by (simp add: is_hwflow_sdt_def io_bind_def io_return_def get_config_value_bool
      read_lines_def no_files_def)

section \<open>The architecture\<close>

text \<open>
  C8 (amended). \<open>get_xilinx_arch\<close> raises nothing. With \<open>base\<close> the lower-cased value of
  the base architecture choice and \<open>variant\<close> the lower-cased value of the SoC variant
  choice, it returns \<open>versal-net\<close> when \<open>base\<close> is \<open>versal\<close> and \<open>variant\<close> is \<open>versalnet\<close>,
  and \<open>base\<close> in every other case: \<open>versal\<close> when \<open>base\<close> is \<open>versal\<close> and \<open>variant\<close> is
  anything else, and \<open>versal-net\<close> if and only if \<open>base\<close> is \<open>versal\<close> with \<open>variant\<close>
  \<open>versalnet\<close>, or \<open>base\<close> is \<open>versal-net\<close> itself.
\<close>

theorem get_xilinx_arch_result:
  "\<exists>base variant.
     fst (get_config_value rx (Xilinx_Arch_Conf pv proot) (SysConfFile pv proot)
            ''choice'' ''=y'' fs) = Inr base
     \<and> fst (get_config_value rx (SOC_VariantConf pv) (SysConfFile pv proot)
            ''choice'' ''=y'' fs) = Inr variant
     \<and> get_xilinx_arch pv rx proot fs
         = (Inr (if py_lower base = ''versal'' \<and> py_lower variant = ''versalnet''
                 then ''versal-net'' else py_lower base), fs)
     \<and> (py_lower base = ''versal'' \<and> py_lower variant \<noteq> ''versalnet''
          \<longrightarrow> fst (get_xilinx_arch pv rx proot fs) = Inr ''versal'')
     \<and> (fst (get_xilinx_arch pv rx proot fs) = Inr ''versal-net''
          \<longleftrightarrow> (py_lower base = ''versal'' \<and> py_lower variant = ''versalnet'')
              \<or> py_lower base = ''versal-net'')"
  by (simp add: get_xilinx_arch_def get_soc_variant_def io_bind_def io_return_def
      get_config_value_choice Let_def)

theorem get_xilinx_arch_result_witness:
  "fst (get_xilinx_arch example_vars re_none ''proj''
     [''proj/project-spec/configs/config'' \<mapsto>
        ''CONFIG_SYSTEM_VERSAL=y'' @ [LF] @ ''CONFIG_SUBSYSTEM_VARIANT_VERSALNET=y'' @ [LF]])
   = Inr ''versal-net''"
proof -
  let ?fs = "[''proj/project-spec/configs/config'' \<mapsto>
        ''CONFIG_SYSTEM_VERSAL=y'' @ [LF] @ ''CONFIG_SUBSYSTEM_VARIANT_VERSALNET=y'' @ [LF]]"
  have b: "fst (get_config_value re_none (Xilinx_Arch_Conf example_vars ''proj'')
             (SysConfFile example_vars ''proj'') ''choice'' ''=y'' ?fs) = Inr ''VERSAL''"
    by code_simp
  have v: "fst (get_config_value re_none (SOC_VariantConf example_vars)
             (SysConfFile example_vars ''proj'') ''choice'' ''=y'' ?fs) = Inr ''VERSALNET''"
    by code_simp
  have l: "py_lower ''VERSAL'' = ''versal''" "py_lower ''VERSALNET'' = ''versalnet''"
    by code_simp+
  show ?thesis
    using get_xilinx_arch_result [of re_none example_vars "''proj''" ?fs] b v l
    by auto
qed

text \<open>A base choice that is \<open>versal-net\<close> itself is returned as it is: the result is
  \<open>versal-net\<close> although the base is not \<open>versal\<close>.\<close>

theorem get_xilinx_arch_counterexample:
  "fst (get_config_value re_none (Xilinx_Arch_Conf example_vars ''proj'')
          (SysConfFile example_vars ''proj'') ''choice'' ''=y''
          [''proj/project-spec/configs/config'' \<mapsto> ''CONFIG_SYSTEM_VERSAL-NET=y'' @ [LF]])
     = Inr ''VERSAL-NET''
   \<and> py_lower ''VERSAL-NET'' \<noteq> ''versal''
   \<and> fst (get_xilinx_arch example_vars re_none ''proj''
          [''proj/project-spec/configs/config'' \<mapsto> ''CONFIG_SYSTEM_VERSAL-NET=y'' @ [LF]])
     = Inr ''versal-net''"
  by code_simp

section \<open>The version check\<close>

lemma petalinux_version_check_cases:
  assumes "get_config_value rx (PetaLinux_Ver_Str pv) (MetaDataFile pv proot) ''bool'' ''=y''
             (CreateFile (MetaDataFile pv proot) fs) = (Inr proj_version, fs1)"
    and "proj_version \<noteq> []" and "PetaLinux_Ver pv \<noteq> proj_version"
  shows "petalinux_version_check pv rx environ answer proot fs =
     (if (case environ ''PLNX_IGNORE_VER_CHK'' of None \<Rightarrow> [] | Some v \<Rightarrow> v) \<noteq> []
      then (Inr True, fs1)
      else (case answer of
              None \<Rightarrow> (Inl EOFError, fs1)
            | Some userchoice \<Rightarrow>
                if userchoice \<in> {''y'', ''Y'', ''yes'', ''Yes'', ''YEs'', ''YES''}
                then (Inl NameError, fs1) else (Inr False, fs1)))"
  using assms
  by (simp add: petalinux_version_check_def io_bind_def io_return_def io_raise_def
      split: option.splits)

lemma petalinux_version_check_same_version:
  assumes "get_config_value rx (PetaLinux_Ver_Str pv) (MetaDataFile pv proot) ''bool'' ''=y''
             (CreateFile (MetaDataFile pv proot) fs) = (Inr proj_version, fs1)"
    and "proj_version \<noteq> []" and "PetaLinux_Ver pv = proj_version"
  shows "petalinux_version_check pv rx environ answer proot fs = (Inr True, fs1)"
  using assms
  by (simp add: petalinux_version_check_def io_bind_def io_return_def)

lemma petalinux_version_check_first_time:
  assumes "get_config_value rx (PetaLinux_Ver_Str pv) (MetaDataFile pv proot) ''bool'' ''=y''
             (CreateFile (MetaDataFile pv proot) fs) = (Inr [], fs1)"
    and "plain_macro (PetaLinux_Ver_Str pv)"
  shows "petalinux_version_check pv rx environ answer proot fs
         = (Inr True,
            snd (update_config_value rx (PetaLinux_Ver_Str pv) (PetaLinux_Ver pv)
                   (MetaDataFile pv proot) fs1))"
  using assms
  by (simp add: petalinux_version_check_def io_bind_def io_return_def update_config_value_plain)

text \<open>
  C4 (the code at a mismatch answered with \<open>y\<close>). The metadata file stores version
  \<open>2023.2\<close>, the tool is \<open>2024.1\<close>, \<open>PLNX_IGNORE_VER_CHK\<close> is unset and the user answers
  \<open>y\<close>: \<open>petalinux_version_check\<close> raises \<open>NameError\<close>; it does not return \<open>True\<close> and the
  metadata file still stores \<open>2023.2\<close>.
\<close>

theorem petalinux_version_check_yes_raises:
  "fst (petalinux_version_check example_vars re_none no_environ (Some ''y'') ''proj''
          [''proj/.petalinux/metadata'' \<mapsto> ''PETALINUX_VER=2023.2'' @ [LF]])
     = Inl NameError
   \<and> snd (petalinux_version_check example_vars re_none no_environ (Some ''y'') ''proj''
          [''proj/.petalinux/metadata'' \<mapsto> ''PETALINUX_VER=2023.2'' @ [LF]])
       ''proj/.petalinux/metadata''
     = Some (''PETALINUX_VER=2023.2'' @ [LF])"
  by code_simp

section \<open>The flash partitions\<close>

text \<open>
  C9. \<open>gen_sysconf_dtsi_file\<close> with a flash device configured. Let the slots \<open>0\<close> to \<open>k - 1\<close>
  have a name, with \<open>k\<close> at most 19, and let slot \<open>k\<close> have none when \<open>k\<close> is below 19; let
  the offsets of the slots up to \<open>k\<close> be computed without \<open>ValueError\<close>, and let no lookup
  and no pattern raise. Then the function returns, and the file it has written holds
  the boot arguments, the Ethernet fragment, the flash fragment, one partition node for
  each of the slots \<open>0\<close> to \<open>k - 1\<close> in this order and no other, and the closing fragment.
  The node of a slot carries its name, its start offset and its size; the offset of slot
  0 is \<open>0x0\<close> and the offset of every further slot is \<open>add_offsets\<close> of the offset and the
  size of the slot before it. With the sizes \<open>0x1000\<close> and \<open>0x2000\<close> for the slots 0 and 1,
  the offset of slot 2 is \<open>0x3000\<close>.
\<close>

theorem gen_sysconf_dtsi_file_flash:
  assumes diff: "SysConfFile pv proot \<noteq> dtsi_file pv proot fs"
    and eth: "eth_fragment pv rx proot fs = Inr eth"
    and flash: "flash_ipname_of pv proot fs \<noteq> []"
    and k: "k \<le> 19"
    and names: "\<forall>j < k. part_name pv proot fs j \<noteq> []"
    and stop: "k < 19 \<longrightarrow> part_name pv proot fs k = []"
    and offs: "\<forall>j. j \<le> k \<and> j < 19 \<longrightarrow> (\<exists>offset. part_offset pv proot fs j = Inr offset)"
    and acc: "\<forall>s \<in> set ([SystemconfBootargs pv (bootargs_of pv proot fs), eth,
                           SystemconfFlash pv (flash_ipname_of pv proot fs), FlashendSymbols pv]
                          @ map (part_node pv proot fs) [0..<k]). re_accepts rx s"
  shows "gen_sysconf_dtsi_file pv rx proot fs
         = (Inr (),
            fs(dtsi_file pv proot fs \<mapsto>
                 SystemconfBootargs pv (bootargs_of pv proot fs) @ eth
                 @ SystemconfFlash pv (flash_ipname_of pv proot fs)
                 @ concat (map (part_node pv proot fs) [0..<k])
                 @ FlashendSymbols pv))
     \<and> part_offset pv proot fs 0 = Inr ''0x0''
     \<and> (\<forall>j < k. \<exists>offset.
            part_offset pv proot fs j = Inr offset
            \<and> part_offset pv proot fs (Suc j) = add_offsets offset (part_size pv proot fs j)
            \<and> part_node pv proot fs j
                = FlashPartNode pv j (part_name pv proot fs j) offset (part_size pv proot fs j))"
proof -
  let ?C = "SysConfFile pv proot"
  let ?D = "dtsi_file pv proot fs"
  let ?boot = "SystemconfBootargs pv (bootargs_of pv proot fs)"
  let ?head = "SystemconfFlash pv (flash_ipname_of pv proot fs)"
  let ?nodes = "concat (map (part_node pv proot fs) [0..<k])"
  let ?ipname = "py_lower (scan_choice (EthConfs_Prefix pv) ''_SELECT=y'' (read_lines fs ?C))"
  have rl: "read_lines (fs(?D \<mapsto> t)) ?C = read_lines fs ?C" for t
    using diff by (simp add: read_lines_def)
  from eth obtain mac where
    mac: "scan_asterisk rx (EthConfs_Prefix pv) (EthConfs_Mac pv) (read_lines fs ?C) = Inr mac"
    and ethv: "eth = (if ?ipname \<noteq> ''manual''
                      then SystemconfEth pv ?ipname (py_replace '':'' '' '' mac) else [])"
    by (auto simp: eth_fragment_def Let_def split: sum.splits)
  from acc have a1: "re_accepts rx ?boot" and a2: "re_accepts rx eth"
    and a3: "re_accepts rx ?head" and a4: "re_accepts rx (FlashendSymbols pv)"
    and an: "\<forall>j < k. re_accepts rx (part_node pv proot fs j)"
    by simp_all
  have s1: "add_str_to_file rx ?D ?boot False Mode_w fs = (Inr (), fs(?D \<mapsto> ?boot))"
    by (rule add_str_to_file_write [OF a1])
  have s2: "(if ?ipname \<noteq> ''manual''
             then add_str_to_file rx ?D (SystemconfEth pv ?ipname (py_replace '':'' '' '' mac))
                    False Mode_a
             else io_return ()) (fs(?D \<mapsto> ?boot))
            = (Inr (), fs(?D \<mapsto> ?boot @ eth))"
  proof (cases "?ipname \<noteq> ''manual''")
    case True
    with ethv have e: "SystemconfEth pv ?ipname (py_replace '':'' '' '' mac) = eth" by simp
    show ?thesis using True by (simp add: e add_str_to_file_append [OF a2])
  next
    case False
    with ethv have "eth = []" by simp
    with False show ?thesis by (simp add: io_return_def)
  qed
  have s3: "add_str_to_file rx ?D ?head False Mode_a (fs(?D \<mapsto> ?boot @ eth))
            = (Inr (), fs(?D \<mapsto> ?boot @ eth @ ?head))"
    by (simp add: add_str_to_file_append [OF a3])
  have s4: "flash_loop pv rx proot ?D [0..<19] ''0x0'' ''0x0'' (fs(?D \<mapsto> ?boot @ eth @ ?head))
            = (Inr (), fs(?D \<mapsto> ?boot @ eth @ ?head @ ?nodes))"
    using flash_loop_nodes [OF diff k names stop offs an, of 0 "fs(?D \<mapsto> ?boot @ eth @ ?head)"
        "?boot @ eth @ ?head" "''0x0''" "''0x0''"] add_offsets_zero diff
    by simp
  have s5: "add_str_to_file rx ?D (FlashendSymbols pv) False Mode_a
              (fs(?D \<mapsto> ?boot @ eth @ ?head @ ?nodes))
            = (Inr (), fs(?D \<mapsto> ?boot @ eth @ ?head @ ?nodes @ FlashendSymbols pv))"
    by (simp add: add_str_to_file_append [OF a4])
  have b: "(if scan_bool (AutoBootArgsConf pv) (read_lines fs ?C) = []
            then get_config_value rx (BootArgsCmdLineConf pv) ?C ''bool'' ''=y''
            else io_return (scan_bool (AutoBootArgsConf pv) (read_lines fs ?C))) fs
           = (Inr (bootargs_of pv proot fs), fs)"
    by (simp add: bootargs_of_def Let_def get_config_value_bool io_return_def)
  have f: "scan_bool (FlashIpConf pv) (read_lines fs ?C) = flash_ipname_of pv proot fs"
    by (simp add: flash_ipname_of_def)
  have d: "SdtSystemConfDtsi pv proot
             (py_strip (scan_bool ''MACHINE '' (read_lines fs (SdtAutoConf pv proot)))) = ?D"
    by (simp add: dtsi_file_def)
  have run: "gen_sysconf_dtsi_file pv rx proot fs
             = (Inr (), fs(?D \<mapsto> ?boot @ eth @ ?head @ ?nodes @ FlashendSymbols pv))"
    unfolding gen_sysconf_dtsi_file_def io_bind_def Let_def
    by (simp only: get_config_value_bool get_config_value_choice get_config_value_asterisk
        prod.case sum.case d b s1 rl mac f s2 s3 s4 s5 flash if_True if_False not_False_eq_True)
  have rec: "\<exists>offset.
            part_offset pv proot fs j = Inr offset
            \<and> part_offset pv proot fs (Suc j) = add_offsets offset (part_size pv proot fs j)
            \<and> part_node pv proot fs j
                = FlashPartNode pv j (part_name pv proot fs j) offset (part_size pv proot fs j)"
    if "j < k" for j
  proof -
    from that k offs obtain offset where "part_offset pv proot fs j = Inr offset"
      by (metis less_imp_le less_le_trans)
    then show ?thesis by (simp add: part_node_def)
  qed
  from run rec show ?thesis by simp
qed

theorem gen_sysconf_dtsi_file_flash_witness:
  "part_offset example_vars ''proj'' example_files 2 = Inr ''0x3000''
   \<and> gen_sysconf_dtsi_file example_vars re_none ''proj'' example_files
       = (Inr (),
          example_files(''proj/build/board-system-conf.dtsi'' \<mapsto>
            ''bootargs = <>;'' @ [LF]
            @ ''&qspi partitions:'' @ [LF]
            @ ''partition@0 label = boot reg = <0x0 0x1000>;'' @ [LF]
            @ ''partition@1 label = kernel reg = <0x1000 0x2000>;'' @ [LF]
            @ ''partition@2 label = rootfs reg = <0x3000 0x4000>;'' @ [LF]
            @ ''end of partitions;'' @ [LF]))"
proof -
  let ?pv = example_vars and ?fs = example_files
  have d: "dtsi_file ?pv ''proj'' ?fs = ''proj/build/board-system-conf.dtsi''"
    by code_simp
  have diff: "SysConfFile ?pv ''proj'' \<noteq> dtsi_file ?pv ''proj'' ?fs"
    unfolding d by code_simp
  have eth: "eth_fragment ?pv re_none ''proj'' ?fs = Inr []"
    by code_simp
  have flash: "flash_ipname_of ?pv ''proj'' ?fs \<noteq> []"
    by code_simp
  have n: "map (part_name ?pv ''proj'' ?fs) [0, 1, 2, 3] = [''boot'', ''kernel'', ''rootfs'', []]"
    by code_simp
  have o2: "part_offset ?pv ''proj'' ?fs 2 = Inr ''0x3000''"
    by code_simp
  have o3: "part_offset ?pv ''proj'' ?fs 3 = Inr ''0x7000''"
    by code_simp
  have frags: "[SystemconfBootargs ?pv (bootargs_of ?pv ''proj'' ?fs), [],
                SystemconfFlash ?pv (flash_ipname_of ?pv ''proj'' ?fs), FlashendSymbols ?pv]
               @ map (part_node ?pv ''proj'' ?fs) [0..<3]
               = [''bootargs = <>;'' @ [LF], [], ''&qspi partitions:'' @ [LF],
                  ''end of partitions;'' @ [LF],
                  ''partition@0 label = boot reg = <0x0 0x1000>;'' @ [LF],
                  ''partition@1 label = kernel reg = <0x1000 0x2000>;'' @ [LF],
                  ''partition@2 label = rootfs reg = <0x3000 0x4000>;'' @ [LF]]"
    by code_simp
  have lit: "\<forall>s \<in> set [''bootargs = <>;'' @ [LF], [], ''&qspi partitions:'' @ [LF],
                  ''end of partitions;'' @ [LF],
                  ''partition@0 label = boot reg = <0x0 0x1000>;'' @ [LF],
                  ''partition@1 label = kernel reg = <0x1000 0x2000>;'' @ [LF],
                  ''partition@2 label = rootfs reg = <0x3000 0x4000>;'' @ [LF]].
               re_accepts re_none s"
    by code_simp
  have cases3: "j = 0 \<or> j = 1 \<or> j = 2" if "j < 3" for j :: nat
    using that by linarith
  have names: "\<forall>j < 3. part_name ?pv ''proj'' ?fs j \<noteq> []"
  proof (intro allI impI)
    fix j :: nat
    assume "j < 3"
    then have "j = 0 \<or> j = 1 \<or> j = 2" by (rule cases3)
    with n show "part_name ?pv ''proj'' ?fs j \<noteq> []" by auto
  qed
  have stop: "(3::nat) < 19 \<longrightarrow> part_name ?pv ''proj'' ?fs 3 = []"
    using n by simp
  have offs: "\<forall>j. j \<le> 3 \<and> j < 19 \<longrightarrow> (\<exists>offset. part_offset ?pv ''proj'' ?fs j = Inr offset)"
    using part_offset_defined [OF o3] by blast
  have acc: "\<forall>s \<in> set ([SystemconfBootargs ?pv (bootargs_of ?pv ''proj'' ?fs), [],
                           SystemconfFlash ?pv (flash_ipname_of ?pv ''proj'' ?fs),
                           FlashendSymbols ?pv]
                          @ map (part_node ?pv ''proj'' ?fs) [0..<3]). re_accepts re_none s"
    unfolding frags by (rule lit)
  have pieces: "SystemconfBootargs ?pv (bootargs_of ?pv ''proj'' ?fs) = ''bootargs = <>;'' @ [LF]"
    "SystemconfFlash ?pv (flash_ipname_of ?pv ''proj'' ?fs) = ''&qspi partitions:'' @ [LF]"
    "FlashendSymbols ?pv = ''end of partitions;'' @ [LF]"
    "map (part_node ?pv ''proj'' ?fs) [0..<3]
     = [''partition@0 label = boot reg = <0x0 0x1000>;'' @ [LF],
        ''partition@1 label = kernel reg = <0x1000 0x2000>;'' @ [LF],
        ''partition@2 label = rootfs reg = <0x3000 0x4000>;'' @ [LF]]"
    using frags by simp_all
  have k3: "(3::nat) \<le> 19" by simp
  have "gen_sysconf_dtsi_file ?pv re_none ''proj'' ?fs
         = (Inr (),
            ?fs(dtsi_file ?pv ''proj'' ?fs \<mapsto>
                 SystemconfBootargs ?pv (bootargs_of ?pv ''proj'' ?fs) @ []
                 @ SystemconfFlash ?pv (flash_ipname_of ?pv ''proj'' ?fs)
                 @ concat (map (part_node ?pv ''proj'' ?fs) [0..<3])
                 @ FlashendSymbols ?pv))"
    by (rule conjunct1 [OF gen_sysconf_dtsi_file_flash [OF diff eth flash k3 names stop offs acc]])
  then show ?thesis
    unfolding d pieces using o2 by simp
qed

end
